theory Spec2Isabelle
  imports Complex_Main "HOL-Library.Sublist"
begin

section \<open>The world the services run in\<close>

text \<open>
  The services of the converter (\<^verbatim>\<open>fileService\<close>, \<^verbatim>\<open>zipService\<close>, \<^verbatim>\<open>pdfService\<close>,
  \<^verbatim>\<open>storage\<close> and the controller) are asynchronous TypeScript that reads and writes the local
  file system and calls three libraries (sharp, JSZip, pdfkit). One request is one sequential
  pipeline, so every \<^verbatim>\<open>await\<close> is modelled as an ordinary call, the file system is an
  explicit state that every function takes and returns, and every \<^verbatim>\<open>throw\<close> is a value
  \<open>Inl e\<close> of a sum type that the enclosing \<^verbatim>\<open>try\<close>/\<^verbatim>\<open>catch\<close>
  inspects. Console output is not modelled.

  A \<^verbatim>\<open>Buffer\<close> is the list of its bytes. A file-system path is the list of its components
  from the root (the paths the code builds with \<^verbatim>\<open>path.join\<close> are normalised); names that
  the code inspects as text (\<^verbatim>\<open>originalname\<close>, the relative path of a ZIP entry) stay strings.
\<close>

type_synonym buffer = "nat list"
type_synonym filepath = "string list"

datatype node = File buffer | Dir

type_synonym filesystem = "filepath \<rightharpoonup> node"

text \<open>
  The errors the code can see. The first four are what Node's \<^verbatim>\<open>fs\<close> raises; the next four
  are the \<^verbatim>\<open>new Error(...)\<close> of \<^verbatim>\<open>extractAndProcessImages\<close>, with the text that is
  interpolated into the message; \<open>LibraryError\<close> is whatever sharp, JSZip or pdfkit throws.
\<close>

datatype error =
    ENOENT | EISDIR | ENOTDIR | EEXIST
  | ZipDoesNotExist filepath
  | ZipFileEmpty filepath
  | ZipInvalid string
  | ZipNoEntries string
  | LibraryError string

record world =
  fs :: filesystem
  now :: nat

subsection \<open>Node's \<^verbatim>\<open>fs\<close> and fs-extra, on the modelled file system\<close>

text \<open>
  An operation fails exactly when the state of the file system makes it fail (a missing
  path, a node of the wrong kind). \<^verbatim>\<open>stat\<close> of a directory reports a size that depends on the
  platform, so it is a parameter.
\<close>

definition existsSync :: "filesystem \<Rightarrow> filepath \<Rightarrow> bool" where
  "existsSync fsys p = (fsys p \<noteq> None)"

definition stat_size :: "nat \<Rightarrow> filesystem \<Rightarrow> filepath \<Rightarrow> error + nat" where
  "stat_size dsize fsys p =
     (case fsys p of
        None \<Rightarrow> Inl ENOENT
      | Some (File b) \<Rightarrow> Inr (length b)
      | Some Dir \<Rightarrow> Inr dsize)"

definition unlink :: "filesystem \<Rightarrow> filepath \<Rightarrow> error + filesystem" where
  "unlink fsys p =
     (case fsys p of
        None \<Rightarrow> Inl ENOENT
      | Some (File b) \<Rightarrow> Inr (fsys(p := None))
      | Some Dir \<Rightarrow> Inl EISDIR)"

definition readFile :: "filesystem \<Rightarrow> filepath \<Rightarrow> error + buffer" where
  "readFile fsys p =
     (case fsys p of
        None \<Rightarrow> Inl ENOENT
      | Some (File b) \<Rightarrow> Inr b
      | Some Dir \<Rightarrow> Inl EISDIR)"

definition is_file :: "node option \<Rightarrow> bool" where
  "is_file n = (case n of Some (File b) \<Rightarrow> True | _ \<Rightarrow> False)"

text \<open>
  \<^verbatim>\<open>fsExtra.ensureDir\<close> and \<^verbatim>\<open>fs.mkdirSync(dir, {recursive: true})\<close>: every missing
  ancestor and the directory itself are created; a regular file in the way is an error.
\<close>

definition mkdirp :: "filesystem \<Rightarrow> filepath \<Rightarrow> error + filesystem" where
  "mkdirp fsys d =
     (if is_file (fsys d) then Inl EEXIST
      else if list_ex (\<lambda>p. is_file (fsys p)) (prefixes d) then Inl ENOTDIR
      else Inr (\<lambda>p. if fsys p = None \<and> prefix p d then Some Dir else fsys p))"

text \<open>\<^verbatim>\<open>fsExtra.remove\<close>: the node and everything under it; a missing path is not an error.\<close>

definition remove_tree :: "filesystem \<Rightarrow> filepath \<Rightarrow> filesystem" where
  "remove_tree fsys d = (\<lambda>p. if prefix d p then None else fsys p)"

section \<open>Library functions on names\<close>

text \<open>
  \<^verbatim>\<open>String.prototype.toLowerCase\<close>, \<^verbatim>\<open>String.prototype.endsWith\<close> and Node's POSIX
  \<^verbatim>\<open>path.basename\<close> and \<^verbatim>\<open>path.extname\<close> are library functions; they are written out
  from their documented behaviour so that names can be evaluated. A string is the list of
  its bytes, and \<open>toLowerCase\<close> maps the ASCII capitals only, which is what decides every
  comparison with an ASCII extension made below.

  \<^verbatim>\<open>path.basename\<close> drops trailing slashes and keeps what follows the last remaining
  slash. \<^verbatim>\<open>path.extname\<close> returns the part of the base name from its last dot on, and the
  empty string when there is no dot, when the last dot is the first character of the base
  name, or when the base name is \<^verbatim>\<open>..\<close>.
\<close>

definition toLowerChar :: "char \<Rightarrow> char" where
  "toLowerChar c =
     (case map_of (zip ''ABCDEFGHIJKLMNOPQRSTUVWXYZ'' ''abcdefghijklmnopqrstuvwxyz'') c of
        None \<Rightarrow> c
      | Some l \<Rightarrow> l)"

definition toLowerCase :: "string \<Rightarrow> string" where
  "toLowerCase s = map toLowerChar s"

definition endsWith :: "string \<Rightarrow> string \<Rightarrow> bool" where
  "endsWith s searchString = suffix searchString s"

definition path_basename :: "string \<Rightarrow> string" where
  "path_basename p =
     rev (takeWhile (\<lambda>c. c \<noteq> CHR ''/'') (dropWhile (\<lambda>c. c = CHR ''/'') (rev p)))"

definition path_extname :: "string \<Rightarrow> string" where
  "path_extname p =
     (let b = path_basename p;
          ext = CHR ''.'' # rev (takeWhile (\<lambda>c. c \<noteq> CHR ''.'') (rev b));
          stem = take (length b - length ext) b
      in if CHR ''.'' \<notin> set b \<or> stem = [] \<or> b = ''..'' then [] else ext)"

text \<open>The decimal digits of a number, as a template literal prints it.\<close>

fun decimal :: "nat \<Rightarrow> string" where
  "decimal n =
     (if n < 10 then [''0123456789'' ! n]
      else decimal (n div 10) @ [''0123456789'' ! (n mod 10)])"

declare decimal.simps [simp del]

text \<open>\<^verbatim>\<open>path.basename\<close> of a file-system path given by its components.\<close>

definition basename_of :: "filepath \<Rightarrow> string" where
  "basename_of p = (if p = [] then [] else last p)"

section \<open>Data\<close>

text \<open>
  \<^verbatim>\<open>Express.Multer.File\<close>, with the fields the services read (\<^verbatim>\<open>size\<close> is only logged),
  \<^verbatim>\<open>ProcessedImage\<close>, \<^verbatim>\<open>FileProcessingOptions\<close> and \<^verbatim>\<open>PDFOptions\<close>.
\<close>

record upload =
  originalname :: string
  mimetype :: string
  path :: filepath

record image =
  buffer :: buffer
  filename :: string
  width :: nat
  height :: nat

record fileProcessingOptions =
  quality :: nat

record pdfOptions =
  showFilenames :: bool
  pageSize :: string

text \<open>
  What the libraries give back. sharp's \<^verbatim>\<open>metadata()\<close> may leave \<^verbatim>\<open>width\<close> or
  \<^verbatim>\<open>height\<close> undefined; its output encoder is one of three. A JSZip entry has its key in
  \<^verbatim>\<open>zip.files\<close>, the \<^verbatim>\<open>dir\<close> flag and the outcome of \<^verbatim>\<open>async('nodebuffer')\<close>.
\<close>

record metadata =
  md_width :: "nat option"
  md_height :: "nat option"

datatype format = Jpeg | Png | Webp

record zipEntry =
  relativePath :: string
  dir :: bool
  content :: "error + buffer"

text \<open>Where an image is drawn on its page, and what else the page carries.\<close>

record placement =
  pl_x :: real
  pl_y :: real
  pl_width :: real
  pl_height :: real

record page =
  page_image :: image
  page_placement :: placement
  page_caption :: "(string \<times> real) option"
  page_footer :: string

text \<open>
  The environment: the working directory, the time that passes between two readings of
  the clock, and the library calls whose results the code only inspects.
  \<open>jszip_loadAsync\<close> lists the entries in the order in which \<^verbatim>\<open>Object.entries(zip.files)\<close>
  enumerates them; \<open>pdfkit_page_size\<close> is pdfkit's table of page sizes (no entry: adding a
  page throws); \<open>pdfkit_embeddable\<close> says whether \<^verbatim>\<open>doc.image\<close> accepts a buffer;
  \<open>pdfkit_bytes\<close> is the file pdfkit writes for a list of pages, \<open>pdfkit_partial\<close> what
  it has written when the document is abandoned after these pages.
\<close>

record env =
  cwd :: filepath
  tick :: "nat \<Rightarrow> nat"
  dir_size :: nat
  sharp_metadata :: "buffer \<Rightarrow> error + metadata"
  sharp_toBuffer :: "format \<Rightarrow> nat \<Rightarrow> buffer \<Rightarrow> error + buffer"
  jszip_loadAsync :: "buffer \<Rightarrow> error + zipEntry list"
  pdfkit_page_size :: "string \<Rightarrow> (real \<times> real) option"
  pdfkit_embeddable :: "buffer \<Rightarrow> bool"
  pdfkit_bytes :: "page list \<Rightarrow> buffer"
  pdfkit_partial :: "page list \<Rightarrow> buffer"

text \<open>\<^verbatim>\<open>!x\<close> for a number that may be undefined.\<close>

definition falsy :: "nat option \<Rightarrow> bool" where
  "falsy v = (v = None \<or> v = Some 0)"

text \<open>\<^verbatim>\<open>Date.now()\<close>: the clock is read, and time passes.\<close>

definition Date_now :: "env \<Rightarrow> world \<Rightarrow> nat \<times> world" where
  "Date_now E w = (now w, w\<lparr>now := tick E (now w)\<rparr>)"

section \<open>The archive extractor (zipService.ts)\<close>

text \<open>
  One candidate image of an archive: the inner \<^verbatim>\<open>try\<close> of the entry loop (lines 110-154).
  \<open>Inr None\<close> is a \<^verbatim>\<open>continue\<close>, \<open>Inr (Some img)\<close> the image that is pushed, \<open>Inl e\<close>
  an error thrown by sharp, which the \<^verbatim>\<open>catch (imgError)\<close> of \<open>processEntry\<close> logs.
\<close>

definition imageExtensions :: "string list" where
  "imageExtensions = [''.jpg'', ''.jpeg'', ''.png'', ''.gif'', ''.bmp'', ''.tiff'', ''.webp'']"

definition processEntryImage_try ::
  "env \<Rightarrow> fileProcessingOptions \<Rightarrow> string \<Rightarrow> string \<Rightarrow> buffer \<Rightarrow> error + image option" where
  "processEntryImage_try E options fileName ext bytes =
     (if length bytes = 0 then Inr None
      else case sharp_metadata E bytes of
        Inl e \<Rightarrow> Inl e
      | Inr md \<Rightarrow>
          if falsy (md_width md) \<or> falsy (md_height md) then Inr None
          else
            let fmt = (if ext = ''.jpg'' \<or> ext = ''.jpeg'' then Jpeg
                       else if ext = ''.png'' then Png
                       else if ext = ''.webp'' then Webp
                       else Jpeg)
            in case sharp_toBuffer E fmt (quality options) bytes of
                 Inl e \<Rightarrow> Inl e
               | Inr buf \<Rightarrow>
                   Inr (Some \<lparr>buffer = buf, filename = fileName,
                              width = the (md_width md), height = the (md_height md)\<rparr>))"

text \<open>
  The body of the entry loop (lines 90-165): what one entry adds to \<^verbatim>\<open>processedImages\<close>.
  Directories are skipped; a failure of \<^verbatim>\<open>zipEntry.async\<close> is caught by
  \<^verbatim>\<open>catch (extractError)\<close>; entries without an image extension are skipped. The counters
  \<^verbatim>\<open>extractedFileCount\<close> and \<^verbatim>\<open>imageCount\<close> are only logged.
\<close>

definition processEntry :: "env \<Rightarrow> fileProcessingOptions \<Rightarrow> zipEntry \<Rightarrow> image option" where
  "processEntry E options zipEntry =
     (if dir zipEntry then None
      else
        let fileName = path_basename (relativePath zipEntry)
        in case content zipEntry of
             Inl extractError \<Rightarrow> None
           | Inr bytes \<Rightarrow>
               let ext = toLowerCase (path_extname fileName);
                   isImage = (ext \<in> set imageExtensions)
               in if isImage
                  then (case processEntryImage_try E options fileName ext bytes of
                          Inl imgError \<Rightarrow> None
                        | Inr r \<Rightarrow> r)
                  else None)"

fun processEntries ::
  "env \<Rightarrow> fileProcessingOptions \<Rightarrow> zipEntry list \<Rightarrow> image list \<Rightarrow> image list" where
  "processEntries E options [] processedImages = processedImages"
| "processEntries E options (zipEntry # rest) processedImages =
     processEntries E options rest
       (case processEntry E options zipEntry of
          None \<Rightarrow> processedImages
        | Some img \<Rightarrow> processedImages @ [img])"

text \<open>The scratch directory \<^verbatim>\<open>tmp/extracted/zip_<timestamp>\<close> under the working directory.\<close>

definition extractDir :: "env \<Rightarrow> nat \<Rightarrow> filepath" where
  "extractDir E timestamp = cwd E @ [''tmp'', ''extracted'', ''zip_'' @ decimal timestamp]"

text \<open>
  The inner \<^verbatim>\<open>try\<close> (lines 59-173), entered once the scratch directory exists: read the
  archive, load it with JSZip, refuse an archive with no entry at all, run the entry loop.
\<close>

definition extract_try ::
  "env \<Rightarrow> filepath \<Rightarrow> fileProcessingOptions \<Rightarrow> filesystem \<Rightarrow> error + image list" where
  "extract_try E zipFilePath options fsys =
     (case readFile fsys zipFilePath of
        Inl e \<Rightarrow> Inl e
      | Inr zipBuffer \<Rightarrow>
          (case jszip_loadAsync E zipBuffer of
             Inl zipError \<Rightarrow> Inl (ZipInvalid (basename_of zipFilePath))
           | Inr files \<Rightarrow>
               if length files = 0 then Inl (ZipNoEntries (basename_of zipFilePath))
               else Inr (processEntries E options files [])))"

text \<open>
  \<^verbatim>\<open>extractAndProcessImages\<close>. The two checks on the archive file and
  \<^verbatim>\<open>ensureDir\<close> come before the inner \<^verbatim>\<open>try\<close>; its \<^verbatim>\<open>finally\<close> removes the scratch
  directory; the outer \<^verbatim>\<open>catch\<close> logs and rethrows, so an error of any stage is the result.
\<close>

definition extractAndProcessImages ::
  "env \<Rightarrow> filepath \<Rightarrow> fileProcessingOptions \<Rightarrow> world \<Rightarrow> (error + image list) \<times> world" where
  "extractAndProcessImages E zipFilePath options w =
     (if \<not> existsSync (fs w) zipFilePath then (Inl (ZipDoesNotExist zipFilePath), w)
      else case stat_size (dir_size E) (fs w) zipFilePath of
        Inl e \<Rightarrow> (Inl e, w)
      | Inr sz \<Rightarrow>
          if sz = 0 then (Inl (ZipFileEmpty zipFilePath), w)
          else
            let (timestamp, w1) = Date_now E w;
                d = extractDir E timestamp
            in case mkdirp (fs w1) d of
                 Inl e \<Rightarrow> (Inl e, w1)
               | Inr fs1 \<Rightarrow>
                   (extract_try E zipFilePath options fs1, w1\<lparr>fs := remove_tree fs1 d\<rparr>))"

section \<open>The batch processor (fileService.ts)\<close>

text \<open>
  \<^verbatim>\<open>processImage\<close>: sharp opens the file at \<^verbatim>\<open>file.path\<close>; the encoder is chosen by the
  declared content-type; any error is caught and gives \<^verbatim>\<open>null\<close>.
\<close>

definition processImage_try ::
  "env \<Rightarrow> filesystem \<Rightarrow> upload \<Rightarrow> fileProcessingOptions \<Rightarrow> error + image option" where
  "processImage_try E fsys file options =
     (case readFile fsys (path file) of
        Inl e \<Rightarrow> Inl e
      | Inr bytes \<Rightarrow>
          (case sharp_metadata E bytes of
             Inl e \<Rightarrow> Inl e
           | Inr md \<Rightarrow>
               if falsy (md_width md) \<or> falsy (md_height md) then Inr None
               else
                 let fmt = (if mimetype file = ''image/jpeg'' \<or> mimetype file = ''image/jpg'' then Jpeg
                            else if mimetype file = ''image/png'' then Png
                            else if mimetype file = ''image/webp'' then Webp
                            else Jpeg)
                 in case sharp_toBuffer E fmt (quality options) bytes of
                      Inl e \<Rightarrow> Inl e
                    | Inr buf \<Rightarrow>
                        Inr (Some \<lparr>buffer = buf, filename = originalname file,
                                   width = the (md_width md), height = the (md_height md)\<rparr>)))"

definition processImage ::
  "env \<Rightarrow> filesystem \<Rightarrow> upload \<Rightarrow> fileProcessingOptions \<Rightarrow> image option" where
  "processImage E fsys file options =
     (case processImage_try E fsys file options of Inl e \<Rightarrow> None | Inr r \<Rightarrow> r)"

text \<open>
  The dispatch of \<^verbatim>\<open>processFiles\<close> (lines 40-68): \<^verbatim>\<open>isZip\<close> is tested first, then the
  list of image extensions, and what is left is unsupported.
\<close>

definition fileExt :: "upload \<Rightarrow> string" where
  "fileExt file = toLowerCase (path_extname (originalname file))"

definition isZip :: "upload \<Rightarrow> bool" where
  "isZip file =
     (fileExt file = ''.zip''
      \<or> mimetype file = ''application/zip''
      \<or> mimetype file = ''application/x-zip-compressed''
      \<or> mimetype file = ''application/octet-stream''
      \<or> endsWith (toLowerCase (originalname file)) ''.zip'')"

definition uploadImageExtensions :: "string list" where
  "uploadImageExtensions = [''.jpg'', ''.jpeg'', ''.png'', ''.gif'', ''.bmp'', ''.tiff'']"

datatype classification = Archive | DirectImage | UnsupportedFile

definition classify :: "upload \<Rightarrow> classification" where
  "classify file =
     (if isZip file then Archive
      else if fileExt file \<in> set uploadImageExtensions then DirectImage
      else UnsupportedFile)"

text \<open>
  What one iteration of the upload loop did: the branch it took and what it pushes onto
  \<^verbatim>\<open>processedImages\<close>.
\<close>

datatype outcome =
    EmptyUpload
  | Extracted "image list"
  | ExtractionFailed error
  | Processed image
  | NotProcessed
  | Unsupported
  | Failed error

fun pushed :: "outcome \<Rightarrow> image list" where
  "pushed (Extracted extractedImages) = extractedImages"
| "pushed (Processed processedImage) = [processedImage]"
| "pushed _ = []"

text \<open>
  The \<^verbatim>\<open>try\<close> block of one iteration (lines 28-68). \<^verbatim>\<open>fs.promises.stat\<close> may throw; an
  empty file is skipped with \<^verbatim>\<open>continue\<close>; an error of the extractor is caught by the
  inner \<^verbatim>\<open>catch (zipError)\<close>.
\<close>

definition processFile_try ::
  "env \<Rightarrow> fileProcessingOptions \<Rightarrow> upload \<Rightarrow> world \<Rightarrow> (error + outcome) \<times> world" where
  "processFile_try E options file w =
     (case stat_size (dir_size E) (fs w) (path file) of
        Inl e \<Rightarrow> (Inl e, w)
      | Inr sz \<Rightarrow>
          if sz = 0 then (Inr EmptyUpload, w)
          else
            (case classify file of
               Archive \<Rightarrow>
                 (case extractAndProcessImages E (path file) options w of
                    (Inl zipError, w') \<Rightarrow> (Inr (ExtractionFailed zipError), w')
                  | (Inr extractedImages, w') \<Rightarrow> (Inr (Extracted extractedImages), w'))
             | DirectImage \<Rightarrow>
                 (case processImage E (fs w) file options of
                    None \<Rightarrow> (Inr NotProcessed, w)
                  | Some processedImage \<Rightarrow> (Inr (Processed processedImage), w))
             | UnsupportedFile \<Rightarrow> (Inr Unsupported, w)))"

text \<open>
  One whole iteration: the \<^verbatim>\<open>catch (error)\<close> turns a thrown error into an outcome, and the
  \<^verbatim>\<open>finally\<close> unlinks the upload's file, swallowing an error of \<^verbatim>\<open>unlink\<close>.
\<close>

definition processFile ::
  "env \<Rightarrow> fileProcessingOptions \<Rightarrow> upload \<Rightarrow> world \<Rightarrow> outcome \<times> world" where
  "processFile E options file w =
     (let (r, w1) = processFile_try E options file w;
          out = (case r of Inl e \<Rightarrow> Failed e | Inr out \<Rightarrow> out);
          w2 = (case unlink (fs w1) (path file) of
                  Inl err \<Rightarrow> w1
                | Inr fs2 \<Rightarrow> w1\<lparr>fs := fs2\<rparr>)
      in (out, w2))"

fun processFiles_loop ::
  "env \<Rightarrow> fileProcessingOptions \<Rightarrow> upload list \<Rightarrow> image list \<Rightarrow> world \<Rightarrow> image list \<times> world" where
  "processFiles_loop E options [] processedImages w = (processedImages, w)"
| "processFiles_loop E options (file # rest) processedImages w =
     (let (out, w') = processFile E options file w
      in processFiles_loop E options rest (processedImages @ pushed out) w')"

definition processFiles ::
  "env \<Rightarrow> upload list \<Rightarrow> fileProcessingOptions \<Rightarrow> world \<Rightarrow> image list \<times> world" where
  "processFiles E files options w = processFiles_loop E options files [] w"

text \<open>
  The outcomes of the iterations of \<^verbatim>\<open>processFiles\<close>, one per upload, each computed in
  the world its predecessors left: a view of the loop used to state its properties.
\<close>

fun outcomes :: "env \<Rightarrow> fileProcessingOptions \<Rightarrow> upload list \<Rightarrow> world \<Rightarrow> outcome list" where
  "outcomes E options [] w = []"
| "outcomes E options (file # rest) w =
     (let (out, w') = processFile E options file w in out # outcomes E options rest w')"

text \<open>
  An iteration failed when it caught an error (\<^verbatim>\<open>catch (error)\<close>, \<^verbatim>\<open>catch (zipError)\<close>) or
  when \<^verbatim>\<open>processImage\<close> returned \<^verbatim>\<open>null\<close>.
\<close>

fun failed :: "outcome \<Rightarrow> bool" where
  "failed (Failed e) = True"
| "failed (ExtractionFailed e) = True"
| "failed NotProcessed = True"
| "failed _ = False"

section \<open>Targeted deletion of one artifact\<close>

text \<open>
  \<^verbatim>\<open>storage.cleanupFile\<close> (storage.ts) and \<^verbatim>\<open>fileService.cleanupTempFiles\<close>
  (fileService.ts) have the same body:
  \<^verbatim>\<open>try { if (fs.existsSync(p)) unlink(p) } catch (error) { console.error(...) }\<close>.
  The body of the \<^verbatim>\<open>try\<close> is \<open>cleanup_try\<close>; the \<^verbatim>\<open>catch\<close> swallows the error and
  leaves the file system as the failed call left it.
\<close>

definition cleanup_try :: "filesystem \<Rightarrow> filepath \<Rightarrow> error + filesystem" where
  "cleanup_try fsys p = (if existsSync fsys p then unlink fsys p else Inr fsys)"

definition cleanupFile :: "filepath \<Rightarrow> filesystem \<Rightarrow> filesystem" where
  "cleanupFile p fsys = (case cleanup_try fsys p of Inl e \<Rightarrow> fsys | Inr fsys' \<Rightarrow> fsys')"

definition cleanupTempFiles :: "filepath \<Rightarrow> filesystem \<Rightarrow> filesystem" where
  "cleanupTempFiles p fsys = (case cleanup_try fsys p of Inl e \<Rightarrow> fsys | Inr fsys' \<Rightarrow> fsys')"

section \<open>The document composer (pdfService.ts)\<close>

text \<open>
  The geometry of one page (lines 60-78). The code computes in IEEE doubles; the model
  computes the same expressions in exact real arithmetic, so the properties below state
  which expression is evaluated on which branch, and nothing that rounding could break
  (a scaled size may exceed the area by one unit in the last place in the code). Every
  \<^verbatim>\<open>ProcessedImage\<close> has a positive width and height, and the properties below assume
  it: with a dimension of 0 the quotients of the code and of the model differ.
\<close>

definition maxWidth :: "real \<Rightarrow> real" where
  "maxWidth pageWidth = pageWidth - 100"

definition maxHeight :: "real \<Rightarrow> real" where
  "maxHeight pageHeight = pageHeight - 150"

definition scaleToFit :: "real \<Rightarrow> real \<Rightarrow> image \<Rightarrow> real \<times> real" where
  "scaleToFit pageWidth pageHeight img =
     (let imgWidth = real (width img);
          imgHeight = real (height img)
      in if imgWidth > maxWidth pageWidth \<or> imgHeight > maxHeight pageHeight
         then
           let widthRatio = maxWidth pageWidth / imgWidth;
               heightRatio = maxHeight pageHeight / imgHeight;
               ratio = min widthRatio heightRatio
           in (imgWidth * ratio, imgHeight * ratio)
         else (imgWidth, imgHeight))"

definition place :: "real \<Rightarrow> real \<Rightarrow> pdfOptions \<Rightarrow> image \<Rightarrow> placement" where
  "place pageWidth pageHeight options img =
     (let (imgWidth, imgHeight) = scaleToFit pageWidth pageHeight img;
          x = (pageWidth - imgWidth) / 2;
          y = (pageHeight - imgHeight - (if showFilenames options then 30 else 0)) / 2
      in \<lparr>pl_x = x, pl_y = y, pl_width = imgWidth, pl_height = imgHeight\<rparr>)"

text \<open>One page (lines 57-105): the image, the caption if requested, the page number.\<close>

definition compose_page :: "real \<Rightarrow> real \<Rightarrow> pdfOptions \<Rightarrow> nat \<Rightarrow> nat \<Rightarrow> image \<Rightarrow> page" where
  "compose_page pageWidth pageHeight options pageCount index img =
     (let pl = place pageWidth pageHeight options img
      in \<lparr>page_image = img,
          page_placement = pl,
          page_caption =
            (if showFilenames options then Some (filename img, pl_y pl + pl_height pl + 10)
             else None),
          page_footer = ''Page '' @ decimal (index + 1) @ '' of '' @ decimal pageCount\<rparr>)"

text \<open>
  The loop over \<^verbatim>\<open>images.entries()\<close> (lines 55-106), with the pages written so far.
  \<^verbatim>\<open>doc.addPage()\<close> throws for a page size pdfkit does not know, \<^verbatim>\<open>doc.image\<close> for a
  buffer it cannot embed.
\<close>

fun addPages ::
  "env \<Rightarrow> pdfOptions \<Rightarrow> nat \<Rightarrow> (nat \<times> image) list \<Rightarrow> page list \<Rightarrow> (error + unit) \<times> page list" where
  "addPages E options pageCount [] doc = (Inr (), doc)"
| "addPages E options pageCount ((index, img) # rest) doc =
     (case pdfkit_page_size E (pageSize options) of
        None \<Rightarrow> (Inl (LibraryError ''unknown page size''), doc)
      | Some (pageWidth, pageHeight) \<Rightarrow>
          if \<not> pdfkit_embeddable E (buffer img)
          then (Inl (LibraryError ''Unknown image format.''), doc)
          else addPages E options pageCount rest
                 (doc @ [compose_page pageWidth pageHeight options pageCount index img]))"

text \<open>
  \<^verbatim>\<open>fs.createWriteStream\<close> fails (with an \<^verbatim>\<open>error\<close> event) when the path is a directory
  or its parent is not one.
\<close>

definition createWriteStream_error :: "filesystem \<Rightarrow> filepath \<Rightarrow> error option" where
  "createWriteStream_error fsys p =
     (if fsys p = Some Dir then Some EISDIR
      else case fsys (butlast p) of
        None \<Rightarrow> Some ENOENT
      | Some (File b) \<Rightarrow> Some ENOTDIR
      | Some Dir \<Rightarrow> None)"

text \<open>
  \<^verbatim>\<open>generatePDF\<close>. The output directory is created if it is missing, the clock is read for
  the file name and for the creation date, the pages are composed, and the promise resolves
  with the path once the stream has finished. When the loop throws, the document is never
  ended: the file, if it could be opened, holds what pdfkit had written (\<open>pdfkit_partial\<close>).
\<close>

definition generatePDF ::
  "env \<Rightarrow> image list \<Rightarrow> pdfOptions \<Rightarrow> world \<Rightarrow> (error + filepath) \<times> world" where
  "generatePDF E images options w =
     (let outputDir = cwd E @ [''tmp'', ''output'']
      in case (if existsSync (fs w) outputDir then Inr (fs w) else mkdirp (fs w) outputDir) of
           Inl e \<Rightarrow> (Inl e, w)
         | Inr fs1 \<Rightarrow>
             let (timestamp, w1) = Date_now E (w\<lparr>fs := fs1\<rparr>);
                 outputPath = outputDir @ [''converted_'' @ decimal timestamp @ ''.pdf''];
                 (creationDate, w2) = Date_now E w1;
                 opened = (createWriteStream_error fs1 outputPath = None)
             in case addPages E options (length images) (enumerate 0 images) [] of
                  (Inl e, doc) \<Rightarrow>
                    (Inl e,
                     if opened then w2\<lparr>fs := fs1(outputPath \<mapsto> File (pdfkit_partial E doc))\<rparr>
                     else w2)
                | (Inr u, doc) \<Rightarrow>
                    (case createWriteStream_error fs1 outputPath of
                       Some e \<Rightarrow> (Inl e, w2)
                     | None \<Rightarrow>
                         (Inr outputPath,
                          w2\<lparr>fs := fs1(outputPath \<mapsto> File (pdfkit_bytes E doc))\<rparr>)))"

section \<open>The controller (converterController.convertToPdf)\<close>

text \<open>
  The request as the controller reads it: \<^verbatim>\<open>req.files\<close> (possibly undefined) and three
  fields of \<^verbatim>\<open>req.body\<close>. The response is a JSON failure with its status and message, the
  status-500 JSON built from a caught error, or the generated file sent as an attachment.
  The deletion of the generated file, one second after the stream has ended, is not part
  of the call.
\<close>

record request =
  req_files :: "upload list option"
  body_showFilenames :: "string option"
  body_imageQuality :: "string option"
  body_pageSize :: "string option"

datatype response =
    Json nat bool string
  | ServerError error
  | PdfAttachment string filepath

text \<open>\<^verbatim>\<open>value || fallback\<close> for a string that may be undefined.\<close>

definition orElse :: "string option \<Rightarrow> string \<Rightarrow> string" where
  "orElse v fallback = (case v of None \<Rightarrow> fallback | Some s \<Rightarrow> if s = [] then fallback else s)"

definition qualityValue :: "string \<Rightarrow> nat" where
  "qualityValue imageQuality =
     (if imageQuality = ''high'' then 100 else if imageQuality = ''low'' then 50 else 80)"

definition convertToPdf_try ::
  "env \<Rightarrow> request \<Rightarrow> world \<Rightarrow> (error + response) \<times> world" where
  "convertToPdf_try E req w =
     (case req_files req of
        None \<Rightarrow> (Inr (Json 400 False ''No files were uploaded''), w)
      | Some files \<Rightarrow>
          if length files = 0 then (Inr (Json 400 False ''No files were uploaded''), w)
          else
            let showFilenames = (body_showFilenames req = Some ''true'');
                imageQuality = orElse (body_imageQuality req) ''medium'';
                pageSize = orElse (body_pageSize req) ''a4'';
                (processedImages, w1) =
                   processFiles E files \<lparr>quality = qualityValue imageQuality\<rparr> w
            in if length processedImages = 0
               then (Inr (Json 400 False ''No valid images found in the uploaded files''), w1)
               else
                 (case generatePDF E processedImages
                         \<lparr>showFilenames = showFilenames, pageSize = pageSize\<rparr> w1 of
                    (Inl e, w2) \<Rightarrow> (Inl e, w2)
                  | (Inr pdfPath, w2) \<Rightarrow>
                      let (t, w3) = Date_now E w2
                      in (Inr (PdfAttachment (''converted_'' @ decimal t @ ''.pdf'') pdfPath), w3)))"

definition convertToPdf ::
  "env \<Rightarrow> request \<Rightarrow> world \<Rightarrow> response \<times> world" where
  "convertToPdf E req w =
     (case convertToPdf_try E req w of
        (Inl e, w') \<Rightarrow> (ServerError e, w')
      | (Inr r, w') \<Rightarrow> (r, w'))"

section \<open>A concrete environment\<close>

text \<open>
  An environment on which the functions can be run: an image is a buffer that starts with
  the JPEG marker \<open>255, 216\<close> followed by its width and its height; re-encoding returns the
  buffer as it is; three buffers are ZIP archives (with no entry, with two images around an
  empty one and a corrupt one, with a text file only); the page sizes are pdfkit's.
\<close>

definition demo_entries :: "zipEntry list" where
  "demo_entries =
     [\<lparr>relativePath = ''pics/'', dir = True, content = Inr []\<rparr>,
      \<lparr>relativePath = ''pics/a.jpg'', dir = False, content = Inr [255, 216, 8, 6]\<rparr>,
      \<lparr>relativePath = ''pics/empty.PNG'', dir = False, content = Inr []\<rparr>,
      \<lparr>relativePath = ''pics/broken.gif'', dir = False, content = Inr [71, 73, 70]\<rparr>,
      \<lparr>relativePath = ''notes.txt'', dir = False, content = Inr [104, 105]\<rparr>,
      \<lparr>relativePath = ''b.webp'', dir = False, content = Inr [255, 216, 3, 4]\<rparr>]"

definition demo_env :: env where
  "demo_env =
     \<lparr>cwd = [''srv''],
      tick = (\<lambda>t. t + 1),
      dir_size = 4096,
      sharp_metadata = (\<lambda>b.
        if take 2 b = [255, 216] \<and> length b = 4
        then Inr \<lparr>md_width = Some (b ! 2), md_height = Some (b ! 3)\<rparr>
        else Inl (LibraryError ''Input buffer contains unsupported image format'')),
      sharp_toBuffer = (\<lambda>fmt q b. Inr b),
      jszip_loadAsync = (\<lambda>b.
        if b = [80, 75, 0] then Inr []
        else if b = [80, 75, 1] then Inr demo_entries
        else if b = [80, 75, 2]
          then Inr [\<lparr>relativePath = ''notes.txt'', dir = False, content = Inr [104, 105]\<rparr>]
        else Inl (LibraryError ''is this a zip file ?'')),
      pdfkit_page_size = (\<lambda>s.
        map_of [(''a4'', (595.28, 841.89)), (''letter'', (612, 792)), (''legal'', (612, 1008))]
          (toLowerCase s)),
      pdfkit_embeddable = (\<lambda>b. take 2 b = [255, 216]),
      pdfkit_bytes = (\<lambda>pages. [37, 80, 68, 70, length pages]),
      pdfkit_partial = (\<lambda>pages. [37, 80, 68, 70])\<rparr>"

text \<open>
  A batch of three uploads (an image, an archive, an image) and the world that holds their
  temp files.
\<close>

definition demo_uploads :: "upload list" where
  "demo_uploads =
     [\<lparr>originalname = ''one.jpg'', mimetype = ''image/jpeg'',
       path = [''srv'', ''tmp'', ''uploads'', ''files-1.jpg'']\<rparr>,
      \<lparr>originalname = ''pack.zip'', mimetype = ''application/zip'',
       path = [''srv'', ''tmp'', ''uploads'', ''files-2.zip'']\<rparr>,
      \<lparr>originalname = ''two.png'', mimetype = ''image/png'',
       path = [''srv'', ''tmp'', ''uploads'', ''files-3.png'']\<rparr>]"

definition demo_world :: world where
  "demo_world =
     \<lparr>fs = [[''srv'', ''tmp'', ''uploads'', ''files-1.jpg''] \<mapsto> File [255, 216, 8, 6],
            [''srv'', ''tmp'', ''uploads'', ''files-2.zip''] \<mapsto> File [80, 75, 1],
            [''srv'', ''tmp'', ''uploads'', ''files-3.png''] \<mapsto> File [255, 216, 5, 7]],
      now = 1000\<rparr>"

text \<open>
  A batch of three loose images whose second file does not decode, and a batch whose
  first upload has lost its temp file.
\<close>

definition demo_corrupt_batch :: "upload list" where
  "demo_corrupt_batch =
     [\<lparr>originalname = ''one.jpg'', mimetype = ''image/jpeg'',
       path = [''srv'', ''tmp'', ''uploads'', ''files-1.jpg'']\<rparr>,
      \<lparr>originalname = ''broken.jpg'', mimetype = ''image/jpeg'',
       path = [''srv'', ''tmp'', ''uploads'', ''files-4.jpg'']\<rparr>,
      \<lparr>originalname = ''two.png'', mimetype = ''image/png'',
       path = [''srv'', ''tmp'', ''uploads'', ''files-3.png'']\<rparr>]"

definition demo_corrupt_world :: world where
  "demo_corrupt_world =
     \<lparr>fs = [[''srv'', ''tmp'', ''uploads'', ''files-1.jpg''] \<mapsto> File [255, 216, 8, 6],
            [''srv'', ''tmp'', ''uploads'', ''files-4.jpg''] \<mapsto> File [1, 2, 3],
            [''srv'', ''tmp'', ''uploads'', ''files-3.png''] \<mapsto> File [255, 216, 5, 7]],
      now = 1000\<rparr>"

section \<open>Properties\<close>

subsection \<open>Release of one artifact\<close>

text \<open>
  C9. Releasing a path that does not exist changes nothing and raises nothing (the body of
  the \<^verbatim>\<open>try\<close> returns normally, with the file system as it was); releasing a path that
  holds a regular file deletes that file and leaves every other path as it was. This holds
  for both release operations, \<^verbatim>\<open>storage.cleanupFile\<close> and
  \<^verbatim>\<open>fileService.cleanupTempFiles\<close>, so a second release of the same path is a no-op.
\<close>

theorem release_missing_noop_existing_deleted:
  "(fsys p = None \<longrightarrow>
      cleanup_try fsys p = Inr fsys \<and> cleanupFile p fsys = fsys \<and> cleanupTempFiles p fsys = fsys)
   \<and> (fsys p = Some (File b) \<longrightarrow>
      cleanupFile p fsys = fsys(p := None) \<and> cleanupTempFiles p fsys = fsys(p := None)
      \<and> cleanupFile p (cleanupFile p fsys) = cleanupFile p fsys
      \<and> cleanupTempFiles p (cleanupTempFiles p fsys) = cleanupTempFiles p fsys)"
  by (simp add: cleanup_try_def cleanupFile_def cleanupTempFiles_def existsSync_def unlink_def)

theorem release_missing_noop_existing_deleted_witness:
  "cleanupFile [''tmp'', ''output'', ''a.pdf''] Map.empty = Map.empty
   \<and> cleanupFile [''tmp'', ''output'', ''a.pdf''] [[''tmp'', ''output'', ''a.pdf''] \<mapsto> File [37, 80]]
       = [[''tmp'', ''output'', ''a.pdf''] \<mapsto> File [37, 80]]([''tmp'', ''output'', ''a.pdf''] := None)"
  using release_missing_noop_existing_deleted
          [of Map.empty "[''tmp'', ''output'', ''a.pdf'']" "[37, 80]"]
        release_missing_noop_existing_deleted
          [of "[[''tmp'', ''output'', ''a.pdf''] \<mapsto> File [37, 80]]" "[''tmp'', ''output'', ''a.pdf'']" "[37, 80]"]
  by simp

subsection \<open>The entry loop of the extractor\<close>

lemma in_set_map_filter:
  "y \<in> set (List.map_filter f xs) \<longleftrightarrow> (\<exists>x \<in> set xs. f x = Some y)"
  by (induction xs) (auto simp: List.map_filter_simps split: option.splits)

lemma processEntries_map_filter:
  "processEntries E options es acc = acc @ List.map_filter (processEntry E options) es"
  by (induction es arbitrary: acc) (auto simp: List.map_filter_simps split: option.splits)

lemma processEntryImage_try_nonempty:
  "processEntryImage_try E options fileName ext bytes = Inr (Some img) \<Longrightarrow>
     bytes \<noteq> [] \<and> filename img = fileName \<and> 0 < width img \<and> 0 < height img"
  by (auto simp: processEntryImage_try_def falsy_def Let_def split: if_splits sum.splits)

lemma processEntry_Some:
  "processEntry E options z = Some img \<Longrightarrow>
     \<not> dir z \<and> (\<exists>bytes. content z = Inr bytes \<and> bytes \<noteq> [])
     \<and> filename img = path_basename (relativePath z)
     \<and> toLowerCase (path_extname (path_basename (relativePath z))) \<in> set imageExtensions
     \<and> 0 < width img \<and> 0 < height img"
  by (auto simp: processEntry_def Let_def split: if_splits sum.splits
           dest: processEntryImage_try_nonempty)

lemmas name_simps = toLowerCase_def toLowerChar_def path_extname_def path_basename_def
  endsWith_def suffix_def imageExtensions_def

text \<open>
  C10. A ZIP entry that is a file, has a recognised image extension and extracts to zero
  bytes is skipped: the inner \<^verbatim>\<open>try\<close> leaves by \<^verbatim>\<open>continue\<close> (\<open>Inr None\<close>, no error),
  the entry adds nothing, and the loop returns what it returns for the archive without
  that entry. Every image the loop returns is the image of an entry whose content is not
  empty.
\<close>

theorem empty_entry_skipped:
  assumes "\<not> dir z" and "content z = Inr []"
    and "toLowerCase (path_extname (path_basename (relativePath z))) \<in> set imageExtensions"
  shows "processEntryImage_try E options (path_basename (relativePath z))
           (toLowerCase (path_extname (path_basename (relativePath z)))) [] = Inr None
         \<and> processEntry E options z = None
         \<and> processEntries E options (xs @ z # ys) acc = processEntries E options (xs @ ys) acc
         \<and> (\<forall>img \<in> set (processEntries E options (xs @ z # ys) []).
               \<exists>z' \<in> set (xs @ ys). \<exists>bytes. content z' = Inr bytes \<and> bytes \<noteq> []
                  \<and> processEntry E options z' = Some img)"
proof -
  have a: "processEntryImage_try E options (path_basename (relativePath z))
           (toLowerCase (path_extname (path_basename (relativePath z)))) [] = Inr None"
    by (simp add: processEntryImage_try_def)
  have b: "processEntry E options z = None"
    using assms a by (simp add: processEntry_def Let_def)
  have c: "processEntries E options (xs @ z # ys) acc = processEntries E options (xs @ ys) acc" for acc
    using b by (simp add: processEntries_map_filter List.map_filter_def)
  have d: "\<exists>z' \<in> set (xs @ ys). \<exists>bytes. content z' = Inr bytes \<and> bytes \<noteq> []
                  \<and> processEntry E options z' = Some img"
    if "img \<in> set (processEntries E options (xs @ z # ys) [])" for img
  proof -
    from that have "img \<in> set (processEntries E options (xs @ ys) [])"
      by (simp only: c)
    then have "img \<in> set (List.map_filter (processEntry E options) (xs @ ys))"
      by (simp add: processEntries_map_filter)
    then obtain z' where "z' \<in> set (xs @ ys)" "processEntry E options z' = Some img"
      unfolding in_set_map_filter by blast
    then show ?thesis using processEntry_Some by blast
  qed
  show ?thesis using a b c d by blast
qed

theorem empty_entry_skipped_witness:
  "\<not> dir \<lparr>relativePath = ''pics/empty.PNG'', dir = False, content = Inr []\<rparr>
   \<and> toLowerCase (path_extname (path_basename ''pics/empty.PNG'')) = ''.png''
   \<and> processEntry demo_env \<lparr>quality = 80\<rparr>
         \<lparr>relativePath = ''pics/empty.PNG'', dir = False, content = Inr []\<rparr> = None
   \<and> processEntries demo_env \<lparr>quality = 80\<rparr>
         ([\<lparr>relativePath = ''pics/a.jpg'', dir = False, content = Inr [255, 216, 8, 6]\<rparr>]
          @ \<lparr>relativePath = ''pics/empty.PNG'', dir = False, content = Inr []\<rparr> # []) []
       = [\<lparr>buffer = [255, 216, 8, 6], filename = ''a.jpg'', width = 8, height = 6\<rparr>]"
  using empty_entry_skipped
    [of "\<lparr>relativePath = ''pics/empty.PNG'', dir = False, content = Inr []\<rparr>"
        demo_env "\<lparr>quality = 80\<rparr>"
        "[\<lparr>relativePath = ''pics/a.jpg'', dir = False, content = Inr [255, 216, 8, 6]\<rparr>]"
        "[]" "[]"]
  by (simp add: name_simps processEntry_def processEntryImage_try_def demo_env_def falsy_def)

subsection \<open>Classification of uploads\<close>

lemma toLowerChar_dot [simp]: "toLowerChar c = CHR ''.'' \<longleftrightarrow> c = CHR ''.''"
  by (auto simp: toLowerChar_def split: if_splits option.splits)

lemma toLowerChar_slash [simp]: "toLowerChar c = CHR ''/'' \<longleftrightarrow> c = CHR ''/''"
  by (auto simp: toLowerChar_def split: if_splits option.splits)

lemma toLowerChar_dot' [simp]: "CHR ''.'' = toLowerChar c \<longleftrightarrow> c = CHR ''.''"
  using toLowerChar_dot [of c] by (simp only: eq_commute)

lemma toLowerCase_basename: "toLowerCase (path_basename s) = path_basename (toLowerCase s)"
  by (simp add: toLowerCase_def path_basename_def rev_map takeWhile_map dropWhile_map comp_def)

lemma toLowerCase_extname: "toLowerCase (path_extname s) = path_extname (toLowerCase s)"
proof -
  have s: "set (map toLowerChar b) = toLowerChar ` set b" for b by simp
  have dot: "CHR ''.'' \<in> toLowerChar ` set b \<longleftrightarrow> CHR ''.'' \<in> set b" for b
    by (force simp: image_iff)
  have dd: "map toLowerChar b = ''..'' \<longleftrightarrow> b = ''..''" for b
    by (auto simp: map_eq_Cons_conv)
  show ?thesis
    unfolding path_extname_def toLowerCase_basename [symmetric]
    by (simp add: toLowerCase_def Let_def rev_map takeWhile_map comp_def dot dd take_map)
qed

lemma extname_of_dot_zip:
  "path_extname (zs @ ''.zip'') = [] \<or> path_extname (zs @ ''.zip'') = ''.zip''"
  by (simp add: path_extname_def path_basename_def Let_def)

lemma endsWith_zip_fileExt:
  assumes "endsWith (toLowerCase (originalname file)) ''.zip''"
  shows "fileExt file = [] \<or> fileExt file = ''.zip''"
proof -
  from assms obtain zs where "toLowerCase (originalname file) = zs @ ''.zip''"
    by (auto simp: endsWith_def suffix_def)
  then show ?thesis
    using extname_of_dot_zip [of zs] by (simp add: fileExt_def toLowerCase_extname)
qed

lemma processFile_outcome:
  assumes "stat_size (dir_size E) (fs w) (path file) = Inr sz" and "sz \<noteq> 0"
  shows "fst (processFile E options file w) =
           (case classify file of
              Archive \<Rightarrow>
                (case fst (extractAndProcessImages E (path file) options w) of
                   Inl zipError \<Rightarrow> ExtractionFailed zipError
                 | Inr extractedImages \<Rightarrow> Extracted extractedImages)
            | DirectImage \<Rightarrow>
                (case processImage E (fs w) file options of
                   None \<Rightarrow> NotProcessed
                 | Some processedImage \<Rightarrow> Processed processedImage)
            | UnsupportedFile \<Rightarrow> Unsupported)"
  using assms
  by (simp add: processFile_def processFile_try_def Let_def
           split: classification.splits prod.splits sum.splits option.splits)

lemma processFiles_single:
  "processFiles E [f] options w =
     (pushed (fst (processFile E options f w)), snd (processFile E options f w))"
  by (simp add: processFiles_def split: prod.splits)

lemmas run_simps = processFile_def processFile_try_def classify_def isZip_def fileExt_def
  uploadImageExtensions_def stat_size_def unlink_def readFile_def existsSync_def mkdirp_def
  remove_tree_def is_file_def extractAndProcessImages_def extract_try_def extractDir_def
  Date_now_def basename_of_def processImage_def processImage_try_def falsy_def
  processEntry_def processEntryImage_try_def decimal.simps demo_env_def demo_entries_def
  processFiles_def Let_def

text \<open>
  The claim C3 that a recognised image extension always wins over the declared content-type
  fails: \<^verbatim>\<open>photo.jpg\<close> declared as \<^verbatim>\<open>application/octet-stream\<close> has the extension
  \<^verbatim>\<open>.jpg\<close> and is handed to the archive extractor, which rejects the JPEG bytes, so the
  upload yields no image; declared as \<^verbatim>\<open>image/jpeg\<close> the same file is processed.
\<close>

theorem extension_precedence_counterexample:
  "fileExt \<lparr>originalname = ''photo.jpg'', mimetype = ''application/octet-stream'',
            path = [''srv'', ''tmp'', ''uploads'', ''files-1.jpg'']\<rparr> = ''.jpg''
   \<and> classify \<lparr>originalname = ''photo.jpg'', mimetype = ''application/octet-stream'',
            path = [''srv'', ''tmp'', ''uploads'', ''files-1.jpg'']\<rparr> = Archive
   \<and> fst (processFile demo_env \<lparr>quality = 80\<rparr>
         \<lparr>originalname = ''photo.jpg'', mimetype = ''application/octet-stream'',
          path = [''srv'', ''tmp'', ''uploads'', ''files-1.jpg'']\<rparr>
         \<lparr>fs = [[''srv'', ''tmp'', ''uploads'', ''files-1.jpg''] \<mapsto> File [255, 216, 8, 6]],
          now = 1000\<rparr>)
       = ExtractionFailed (ZipInvalid ''files-1.jpg'')
   \<and> fst (processFile demo_env \<lparr>quality = 80\<rparr>
         \<lparr>originalname = ''photo.jpg'', mimetype = ''image/jpeg'',
          path = [''srv'', ''tmp'', ''uploads'', ''files-1.jpg'']\<rparr>
         \<lparr>fs = [[''srv'', ''tmp'', ''uploads'', ''files-1.jpg''] \<mapsto> File [255, 216, 8, 6]],
          now = 1000\<rparr>)
       = Processed \<lparr>buffer = [255, 216, 8, 6], filename = ''photo.jpg'', width = 8, height = 6\<rparr>"
  by (simp add: run_simps name_simps)

text \<open>
  C3, amended. An upload is handled as an archive exactly when its extension is
  \<^verbatim>\<open>.zip\<close>, or its lower-cased name ends in \<^verbatim>\<open>.zip\<close>, or its declared content-type is
  \<^verbatim>\<open>application/zip\<close>, \<^verbatim>\<open>application/x-zip-compressed\<close> or
  \<^verbatim>\<open>application/octet-stream\<close>. So the extension \<^verbatim>\<open>.zip\<close> makes an upload an archive
  whatever its content-type, while an upload with one of the image extensions
  \<^verbatim>\<open>.jpg .jpeg .png .gif .bmp .tiff\<close> is a direct image exactly when its content-type is
  none of those three, and an archive otherwise. A non-empty upload is processed by the
  branch of its classification.
\<close>

theorem archive_test_precedes_extension:
  "(classify file = Archive \<longleftrightarrow>
      fileExt file = ''.zip'' \<or> endsWith (toLowerCase (originalname file)) ''.zip''
      \<or> mimetype file = ''application/zip'' \<or> mimetype file = ''application/x-zip-compressed''
      \<or> mimetype file = ''application/octet-stream'')
   \<and> (fileExt file = ''.zip'' \<longrightarrow> classify file = Archive)
   \<and> (fileExt file \<in> set [''.jpg'', ''.jpeg'', ''.png'', ''.gif'', ''.bmp'', ''.tiff''] \<longrightarrow>
        (classify file = DirectImage \<longleftrightarrow>
           mimetype file \<noteq> ''application/zip'' \<and> mimetype file \<noteq> ''application/x-zip-compressed''
           \<and> mimetype file \<noteq> ''application/octet-stream'')
        \<and> (classify file = Archive \<longleftrightarrow>
           mimetype file = ''application/zip'' \<or> mimetype file = ''application/x-zip-compressed''
           \<or> mimetype file = ''application/octet-stream''))
   \<and> (stat_size (dir_size E) (fs w) (path file) = Inr sz \<and> sz \<noteq> 0 \<longrightarrow>
        fst (processFile E options file w) =
           (case classify file of
              Archive \<Rightarrow>
                (case fst (extractAndProcessImages E (path file) options w) of
                   Inl zipError \<Rightarrow> ExtractionFailed zipError
                 | Inr extractedImages \<Rightarrow> Extracted extractedImages)
            | DirectImage \<Rightarrow>
                (case processImage E (fs w) file options of
                   None \<Rightarrow> NotProcessed
                 | Some processedImage \<Rightarrow> Processed processedImage)
            | UnsupportedFile \<Rightarrow> Unsupported))"
proof -
  have a: "classify file = Archive \<longleftrightarrow>
      fileExt file = ''.zip'' \<or> endsWith (toLowerCase (originalname file)) ''.zip''
      \<or> mimetype file = ''application/zip'' \<or> mimetype file = ''application/x-zip-compressed''
      \<or> mimetype file = ''application/octet-stream''"
    by (auto simp: classify_def isZip_def)
  have b: "\<not> endsWith (toLowerCase (originalname file)) ''.zip''"
    if "fileExt file \<in> set [''.jpg'', ''.jpeg'', ''.png'', ''.gif'', ''.bmp'', ''.tiff'']"
    using that endsWith_zip_fileExt [of "file"] by auto
  have c: "(classify file = DirectImage \<longleftrightarrow>
           mimetype file \<noteq> ''application/zip'' \<and> mimetype file \<noteq> ''application/x-zip-compressed''
           \<and> mimetype file \<noteq> ''application/octet-stream'')
        \<and> (classify file = Archive \<longleftrightarrow>
           mimetype file = ''application/zip'' \<or> mimetype file = ''application/x-zip-compressed''
           \<or> mimetype file = ''application/octet-stream'')"
    if "fileExt file \<in> set [''.jpg'', ''.jpeg'', ''.png'', ''.gif'', ''.bmp'', ''.tiff'']"
    using that b [OF that] by (auto simp: classify_def isZip_def uploadImageExtensions_def)
  show ?thesis
    using a c processFile_outcome [of E w "file" sz options] by blast
qed

theorem archive_test_precedes_extension_witness:
  "fileExt \<lparr>originalname = ''photo.jpg'', mimetype = ''image/png'',
            path = [''srv'', ''tmp'', ''uploads'', ''files-1.jpg'']\<rparr>
     \<in> set [''.jpg'', ''.jpeg'', ''.png'', ''.gif'', ''.bmp'', ''.tiff'']
   \<and> stat_size (dir_size demo_env)
         [[''srv'', ''tmp'', ''uploads'', ''files-1.jpg''] \<mapsto> File [255, 216, 8, 6]]
         [''srv'', ''tmp'', ''uploads'', ''files-1.jpg''] = Inr 4
   \<and> classify \<lparr>originalname = ''photo.jpg'', mimetype = ''image/png'',
            path = [''srv'', ''tmp'', ''uploads'', ''files-1.jpg'']\<rparr> = DirectImage
   \<and> fst (processFile demo_env \<lparr>quality = 80\<rparr>
         \<lparr>originalname = ''photo.jpg'', mimetype = ''image/png'',
          path = [''srv'', ''tmp'', ''uploads'', ''files-1.jpg'']\<rparr>
         \<lparr>fs = [[''srv'', ''tmp'', ''uploads'', ''files-1.jpg''] \<mapsto> File [255, 216, 8, 6]],
          now = 1000\<rparr>)
       = Processed \<lparr>buffer = [255, 216, 8, 6], filename = ''photo.jpg'', width = 8, height = 6\<rparr>
   \<and> fileExt \<lparr>originalname = ''Holiday.ZIP'', mimetype = ''image/jpeg'',
            path = [''srv'', ''tmp'', ''uploads'', ''files-2.ZIP'']\<rparr> = ''.zip''
   \<and> classify \<lparr>originalname = ''Holiday.ZIP'', mimetype = ''image/jpeg'',
            path = [''srv'', ''tmp'', ''uploads'', ''files-2.ZIP'']\<rparr> = Archive"
  using archive_test_precedes_extension
    [of "\<lparr>originalname = ''photo.jpg'', mimetype = ''image/png'',
          path = [''srv'', ''tmp'', ''uploads'', ''files-1.jpg'']\<rparr>"
        demo_env
        "\<lparr>fs = [[''srv'', ''tmp'', ''uploads'', ''files-1.jpg''] \<mapsto> File [255, 216, 8, 6]],
          now = 1000\<rparr>" 4 "\<lparr>quality = 80\<rparr>"]
    archive_test_precedes_extension
    [of "\<lparr>originalname = ''Holiday.ZIP'', mimetype = ''image/jpeg'',
          path = [''srv'', ''tmp'', ''uploads'', ''files-2.ZIP'']\<rparr>"
        demo_env
        "\<lparr>fs = [[''srv'', ''tmp'', ''uploads'', ''files-1.jpg''] \<mapsto> File [255, 216, 8, 6]],
          now = 1000\<rparr>" 4 "\<lparr>quality = 80\<rparr>"]
  by (simp add: run_simps name_simps)

text \<open>
  The claim C7 that a loose \<^verbatim>\<open>.webp\<close> upload is delegated to the image normaliser fails:
  \<^verbatim>\<open>pic.webp\<close>, declared \<^verbatim>\<open>image/webp\<close> and holding a decodable image, is classified as
  unsupported and the batch returns no image, while the same file named \<^verbatim>\<open>pic.png\<close> is
  processed.
\<close>

theorem webp_upload_counterexample:
  "fileExt \<lparr>originalname = ''pic.webp'', mimetype = ''image/webp'',
            path = [''srv'', ''tmp'', ''uploads'', ''files-3.webp'']\<rparr> = ''.webp''
   \<and> classify \<lparr>originalname = ''pic.webp'', mimetype = ''image/webp'',
            path = [''srv'', ''tmp'', ''uploads'', ''files-3.webp'']\<rparr> = UnsupportedFile
   \<and> fst (processFile demo_env \<lparr>quality = 80\<rparr>
         \<lparr>originalname = ''pic.webp'', mimetype = ''image/webp'',
          path = [''srv'', ''tmp'', ''uploads'', ''files-3.webp'']\<rparr>
         \<lparr>fs = [[''srv'', ''tmp'', ''uploads'', ''files-3.webp''] \<mapsto> File [255, 216, 8, 6]],
          now = 1000\<rparr>) = Unsupported
   \<and> fst (processFiles demo_env
         [\<lparr>originalname = ''pic.webp'', mimetype = ''image/webp'',
           path = [''srv'', ''tmp'', ''uploads'', ''files-3.webp'']\<rparr>] \<lparr>quality = 80\<rparr>
         \<lparr>fs = [[''srv'', ''tmp'', ''uploads'', ''files-3.webp''] \<mapsto> File [255, 216, 8, 6]],
          now = 1000\<rparr>) = []
   \<and> fst (processFiles demo_env
         [\<lparr>originalname = ''pic.png'', mimetype = ''image/webp'',
           path = [''srv'', ''tmp'', ''uploads'', ''files-3.webp'']\<rparr>] \<lparr>quality = 80\<rparr>
         \<lparr>fs = [[''srv'', ''tmp'', ''uploads'', ''files-3.webp''] \<mapsto> File [255, 216, 8, 6]],
          now = 1000\<rparr>)
       = [\<lparr>buffer = [255, 216, 8, 6], filename = ''pic.png'', width = 8, height = 6\<rparr>]"
  by (simp add: run_simps name_simps)

text \<open>
  C7, amended. A loose upload whose extension is \<^verbatim>\<open>.webp\<close> is never delegated to the
  image normaliser: it is an archive when its declared content-type is one of the three
  archive types and unsupported otherwise, and an unsupported non-empty upload is skipped
  and contributes nothing. The extensions of directly supported images are
  \<^verbatim>\<open>.jpg .jpeg .png .gif .bmp .tiff\<close> only.
\<close>

theorem webp_upload_unsupported:
  assumes "fileExt file = ''.webp''"
  shows "classify file \<noteq> DirectImage
     \<and> (classify file = Archive \<longleftrightarrow>
           mimetype file = ''application/zip'' \<or> mimetype file = ''application/x-zip-compressed''
           \<or> mimetype file = ''application/octet-stream'')
     \<and> (classify file = UnsupportedFile \<longleftrightarrow>
           mimetype file \<noteq> ''application/zip'' \<and> mimetype file \<noteq> ''application/x-zip-compressed''
           \<and> mimetype file \<noteq> ''application/octet-stream'')
     \<and> (stat_size (dir_size E) (fs w) (path file) = Inr sz \<and> sz \<noteq> 0
         \<and> classify file = UnsupportedFile \<longrightarrow>
           fst (processFile E options file w) = Unsupported
           \<and> fst (processFiles E [file] options w) = [])
     \<and> (\<forall>g. classify g = DirectImage \<longrightarrow>
           fileExt g \<in> set [''.jpg'', ''.jpeg'', ''.png'', ''.gif'', ''.bmp'', ''.tiff''])"
proof -
  have nz: "\<not> endsWith (toLowerCase (originalname file)) ''.zip''"
    using assms endsWith_zip_fileExt [of "file"] by auto
  have a: "classify file \<noteq> DirectImage"
    using assms by (simp add: classify_def uploadImageExtensions_def)
  have b: "classify file = Archive \<longleftrightarrow>
           mimetype file = ''application/zip'' \<or> mimetype file = ''application/x-zip-compressed''
           \<or> mimetype file = ''application/octet-stream''"
    using assms nz by (auto simp: classify_def isZip_def uploadImageExtensions_def)
  have c: "classify file = UnsupportedFile \<longleftrightarrow>
           mimetype file \<noteq> ''application/zip'' \<and> mimetype file \<noteq> ''application/x-zip-compressed''
           \<and> mimetype file \<noteq> ''application/octet-stream''"
    using a b by (cases "classify file") auto
  have d: "fst (processFile E options file w) = Unsupported
           \<and> fst (processFiles E [file] options w) = []"
    if "stat_size (dir_size E) (fs w) (path file) = Inr sz" "sz \<noteq> 0"
       "classify file = UnsupportedFile"
    using processFile_outcome [OF that(1,2), of options] that(3)
    by (simp add: processFiles_single)
  have e: "fileExt g \<in> set [''.jpg'', ''.jpeg'', ''.png'', ''.gif'', ''.bmp'', ''.tiff'']"
    if "classify g = DirectImage" for g :: upload
    using that by (auto simp: classify_def uploadImageExtensions_def split: if_splits)
  show ?thesis using a b c d e by blast
qed

theorem webp_upload_unsupported_witness:
  "fileExt \<lparr>originalname = ''pic.webp'', mimetype = ''image/webp'',
            path = [''srv'', ''tmp'', ''uploads'', ''files-3.webp'']\<rparr> = ''.webp''
   \<and> stat_size (dir_size demo_env)
         [[''srv'', ''tmp'', ''uploads'', ''files-3.webp''] \<mapsto> File [255, 216, 8, 6]]
         [''srv'', ''tmp'', ''uploads'', ''files-3.webp''] = Inr 4
   \<and> classify \<lparr>originalname = ''pic.webp'', mimetype = ''image/webp'',
            path = [''srv'', ''tmp'', ''uploads'', ''files-3.webp'']\<rparr> = UnsupportedFile
   \<and> fst (processFile demo_env \<lparr>quality = 80\<rparr>
         \<lparr>originalname = ''pic.webp'', mimetype = ''image/webp'',
          path = [''srv'', ''tmp'', ''uploads'', ''files-3.webp'']\<rparr>
         \<lparr>fs = [[''srv'', ''tmp'', ''uploads'', ''files-3.webp''] \<mapsto> File [255, 216, 8, 6]],
          now = 1000\<rparr>) = Unsupported"
  using webp_upload_unsupported
    [of "\<lparr>originalname = ''pic.webp'', mimetype = ''image/webp'',
          path = [''srv'', ''tmp'', ''uploads'', ''files-3.webp'']\<rparr>"
        demo_env
        "\<lparr>fs = [[''srv'', ''tmp'', ''uploads'', ''files-3.webp''] \<mapsto> File [255, 216, 8, 6]],
          now = 1000\<rparr>" 4 "\<lparr>quality = 80\<rparr>"]
  by (simp add: run_simps name_simps)

subsection \<open>Page geometry\<close>

lemma scaled_le_native:
  fixes W H a b :: real
  assumes "0 < W" "0 < H" "W > a \<or> H > b"
  shows "W * min (a / W) (b / H) \<le> W" "H * min (a / W) (b / H) \<le> H"
proof -
  have "min (a / W) (b / H) \<le> 1"
  proof (cases "W > a")
    case True
    then have "a / W \<le> 1" using assms(1) by simp
    then show ?thesis by (rule min.coboundedI1)
  next
    case False
    then have "b / H \<le> 1" using assms(2,3) by simp
    then show ?thesis by (rule min.coboundedI2)
  qed
  then show "W * min (a / W) (b / H) \<le> W" "H * min (a / W) (b / H) \<le> H"
    using assms(1,2) by (simp_all add: mult_le_cancel_left1)
qed

lemmas layout_simps = place_def scaleToFit_def maxWidth_def maxHeight_def Let_def

text \<open>
  The claim C4 that the placed image is always centred on the page fails when captions are
  enabled: on a 612 by 792 page a 100 by 100 image is drawn at \<open>y = 331\<close>, so its centre
  is at 381 and not at the centre of the page, 396.
\<close>

theorem centred_on_page_counterexample:
  "pl_y (place 612 792 \<lparr>showFilenames = True, pageSize = ''letter''\<rparr>
          \<lparr>buffer = [255, 216, 100, 100], filename = ''a.jpg'', width = 100, height = 100\<rparr>) = 331
   \<and> pl_height (place 612 792 \<lparr>showFilenames = True, pageSize = ''letter''\<rparr>
          \<lparr>buffer = [255, 216, 100, 100], filename = ''a.jpg'', width = 100, height = 100\<rparr>) = 100
   \<and> pl_y (place 612 792 \<lparr>showFilenames = True, pageSize = ''letter''\<rparr>
          \<lparr>buffer = [255, 216, 100, 100], filename = ''a.jpg'', width = 100, height = 100\<rparr>)
       + pl_height (place 612 792 \<lparr>showFilenames = True, pageSize = ''letter''\<rparr>
          \<lparr>buffer = [255, 216, 100, 100], filename = ''a.jpg'', width = 100, height = 100\<rparr>) / 2
       \<noteq> 792 / 2"
  by (simp add: layout_simps)

text \<open>
  C4, amended. For an image of positive width and height: if its width exceeds
  \<open>maxWidth\<close> or its height exceeds \<open>maxHeight\<close>, both dimensions are multiplied by
  \<open>min (maxWidth / width) (maxHeight / height)\<close>; otherwise it is placed at its native
  size. In both cases it is never enlarged, and it is drawn at
  \<open>x = (pageWidth - placedWidth) / 2\<close> and
  \<open>y = (pageHeight - placedHeight - (if showFilenames then 30 else 0)) / 2\<close>: centred
  horizontally on the page, centred vertically on the page when captions are disabled, and
  centred vertically within the page height less 30 units when they are enabled.
\<close>

theorem scale_to_fit_and_position:
  assumes "0 < width img" and "0 < height img"
  shows "(real (width img) > maxWidth pw \<or> real (height img) > maxHeight ph \<longrightarrow>
            pl_width (place pw ph options img)
              = real (width img)
                * min (maxWidth pw / real (width img)) (maxHeight ph / real (height img))
          \<and> pl_height (place pw ph options img)
              = real (height img)
                * min (maxWidth pw / real (width img)) (maxHeight ph / real (height img)))
       \<and> (real (width img) \<le> maxWidth pw \<and> real (height img) \<le> maxHeight ph \<longrightarrow>
            pl_width (place pw ph options img) = real (width img)
          \<and> pl_height (place pw ph options img) = real (height img))
       \<and> pl_width (place pw ph options img) \<le> real (width img)
       \<and> pl_height (place pw ph options img) \<le> real (height img)
       \<and> pl_x (place pw ph options img) = (pw - pl_width (place pw ph options img)) / 2
       \<and> pl_y (place pw ph options img)
           = (ph - pl_height (place pw ph options img)
                - (if showFilenames options then 30 else 0)) / 2"
proof -
  let ?W = "real (width img)" and ?H = "real (height img)"
  let ?r = "min (maxWidth pw / ?W) (maxHeight ph / ?H)"
  have pos: "0 < ?W" "0 < ?H" using assms by simp_all
  have x: "pl_x (place pw ph options img) = (pw - pl_width (place pw ph options img)) / 2"
    and y: "pl_y (place pw ph options img)
             = (ph - pl_height (place pw ph options img)
                  - (if showFilenames options then 30 else 0)) / 2"
    by (simp_all add: place_def Let_def split: prod.splits)
  show ?thesis
  proof (cases "?W > maxWidth pw \<or> ?H > maxHeight ph")
    case True
    have w: "pl_width (place pw ph options img) = ?W * ?r"
      and h: "pl_height (place pw ph options img) = ?H * ?r"
      using True by (simp_all add: place_def scaleToFit_def Let_def)
    from scaled_le_native [OF pos True] x y
    show ?thesis
      unfolding w h using True by auto
  next
    case False
    have w: "pl_width (place pw ph options img) = ?W"
      and h: "pl_height (place pw ph options img) = ?H"
      using False by (simp_all add: place_def scaleToFit_def Let_def)
    from x y show ?thesis
      unfolding w h using False by auto
  qed
qed

theorem scale_to_fit_and_position_witness:
  "real (width \<lparr>buffer = [255, 216, 8, 6], filename = ''a.jpg'', width = 1024, height = 642\<rparr>)
     > maxWidth 612
   \<and> pl_width (place 612 792 \<lparr>showFilenames = False, pageSize = ''letter''\<rparr>
          \<lparr>buffer = [255, 216, 8, 6], filename = ''a.jpg'', width = 1024, height = 642\<rparr>) = 512
   \<and> pl_height (place 612 792 \<lparr>showFilenames = False, pageSize = ''letter''\<rparr>
          \<lparr>buffer = [255, 216, 8, 6], filename = ''a.jpg'', width = 1024, height = 642\<rparr>) = 321
   \<and> pl_x (place 612 792 \<lparr>showFilenames = False, pageSize = ''letter''\<rparr>
          \<lparr>buffer = [255, 216, 8, 6], filename = ''a.jpg'', width = 1024, height = 642\<rparr>) = 50
   \<and> real (width \<lparr>buffer = [255, 216, 8, 6], filename = ''b.jpg'', width = 100, height = 100\<rparr>)
       \<le> maxWidth 612
   \<and> real (height \<lparr>buffer = [255, 216, 8, 6], filename = ''b.jpg'', width = 100, height = 100\<rparr>)
       \<le> maxHeight 792
   \<and> pl_width (place 612 792 \<lparr>showFilenames = False, pageSize = ''letter''\<rparr>
          \<lparr>buffer = [255, 216, 8, 6], filename = ''b.jpg'', width = 100, height = 100\<rparr>) = 100
   \<and> pl_height (place 612 792 \<lparr>showFilenames = False, pageSize = ''letter''\<rparr>
          \<lparr>buffer = [255, 216, 8, 6], filename = ''b.jpg'', width = 100, height = 100\<rparr>) = 100"
  using scale_to_fit_and_position
    [of "\<lparr>buffer = [255, 216, 8, 6], filename = ''a.jpg'', width = 1024, height = 642\<rparr>"
        612 792 "\<lparr>showFilenames = False, pageSize = ''letter''\<rparr>"]
    scale_to_fit_and_position
    [of "\<lparr>buffer = [255, 216, 8, 6], filename = ''b.jpg'', width = 100, height = 100\<rparr>"
        612 792 "\<lparr>showFilenames = False, pageSize = ''letter''\<rparr>"]
  by (simp add: layout_simps)

text \<open>
  The claim C5 that without captions only the 50-unit margins are deducted fails: the
  height of the area is the page height less 150, so on a 612 by 792 page without captions
  a 500 by 650 image, which fits 512 by 692, is scaled down to a height of 642.
\<close>

theorem content_area_counterexample:
  "maxHeight 792 = 642
   \<and> maxHeight 792 \<noteq> 792 - 100
   \<and> real (width \<lparr>buffer = [255, 216, 8, 6], filename = ''a.jpg'', width = 500, height = 650\<rparr>)
        \<le> 612 - 100
   \<and> real (height \<lparr>buffer = [255, 216, 8, 6], filename = ''a.jpg'', width = 500, height = 650\<rparr>)
        \<le> 792 - 100
   \<and> pl_height (place 612 792 \<lparr>showFilenames = False, pageSize = ''letter''\<rparr>
          \<lparr>buffer = [255, 216, 8, 6], filename = ''a.jpg'', width = 500, height = 650\<rparr>) = 642
   \<and> pl_height (place 612 792 \<lparr>showFilenames = False, pageSize = ''letter''\<rparr>
          \<lparr>buffer = [255, 216, 8, 6], filename = ''a.jpg'', width = 500, height = 650\<rparr>)
       \<noteq> real (height \<lparr>buffer = [255, 216, 8, 6], filename = ''a.jpg'', width = 500, height = 650\<rparr>)"
  by (simp add: layout_simps)

text \<open>
  C5, amended. The content area used for scale-to-fit is the page width less 100 by the page
  height less 150, whether captions are enabled or not: the placed width and height do
  not depend on \<open>showFilenames\<close>, which only moves the image up by 15 units.
\<close>

theorem content_area_fixed:
  "maxWidth pw = pw - 100
   \<and> maxHeight ph = ph - 150
   \<and> scaleToFit pw ph img =
       (if real (width img) > pw - 100 \<or> real (height img) > ph - 150
        then (real (width img)
                * min ((pw - 100) / real (width img)) ((ph - 150) / real (height img)),
              real (height img)
                * min ((pw - 100) / real (width img)) ((ph - 150) / real (height img)))
        else (real (width img), real (height img)))
   \<and> pl_width (place pw ph \<lparr>showFilenames = True, pageSize = s\<rparr> img)
       = pl_width (place pw ph \<lparr>showFilenames = False, pageSize = s\<rparr> img)
   \<and> pl_height (place pw ph \<lparr>showFilenames = True, pageSize = s\<rparr> img)
       = pl_height (place pw ph \<lparr>showFilenames = False, pageSize = s\<rparr> img)
   \<and> pl_width (place pw ph options img) = fst (scaleToFit pw ph img)
   \<and> pl_height (place pw ph options img) = snd (scaleToFit pw ph img)
   \<and> pl_y (place pw ph \<lparr>showFilenames = False, pageSize = s\<rparr> img)
       - pl_y (place pw ph \<lparr>showFilenames = True, pageSize = s\<rparr> img) = 15"
proof -
  have y: "pl_y (place pw ph \<lparr>showFilenames = False, pageSize = s\<rparr> img)
       - pl_y (place pw ph \<lparr>showFilenames = True, pageSize = s\<rparr> img) = 15"
    by (cases "scaleToFit pw ph img") (simp add: place_def diff_divide_distrib [symmetric])
  show ?thesis
    using y by (simp add: layout_simps split: prod.splits)
qed

theorem content_area_fixed_witness:
  "maxHeight 792 = 642
   \<and> pl_height (place 612 792 \<lparr>showFilenames = False, pageSize = ''letter''\<rparr>
          \<lparr>buffer = [255, 216, 8, 6], filename = ''a.jpg'', width = 500, height = 650\<rparr>) = 642
   \<and> pl_height (place 612 792 \<lparr>showFilenames = True, pageSize = ''letter''\<rparr>
          \<lparr>buffer = [255, 216, 8, 6], filename = ''a.jpg'', width = 500, height = 650\<rparr>) = 642"
  using content_area_fixed
    [of 612 792 "\<lparr>buffer = [255, 216, 8, 6], filename = ''a.jpg'', width = 500, height = 650\<rparr>"
        "''letter''" "\<lparr>showFilenames = False, pageSize = ''letter''\<rparr>"]
  by (simp add: layout_simps)

subsection \<open>The upload loop\<close>

lemma processFiles_loop_acc:
  "processFiles_loop E options files acc w =
     (acc @ fst (processFiles_loop E options files [] w),
      snd (processFiles_loop E options files [] w))"
proof (induction files arbitrary: acc w)
  case Nil
  show ?case by simp
next
  case (Cons f files)
  obtain out w' where step: "processFile E options f w = (out, w')"
    by (cases "processFile E options f w")
  show ?case
    using Cons.IH [of "acc @ pushed out" w'] Cons.IH [of "pushed out" w']
    by (simp add: step)
qed

lemma processFiles_Nil: "processFiles E [] options w = ([], w)"
  by (simp add: processFiles_def)

lemma processFiles_Cons:
  "processFiles E (f # files) options w =
     (pushed (fst (processFile E options f w))
        @ fst (processFiles E files options (snd (processFile E options f w))),
      snd (processFiles E files options (snd (processFile E options f w))))"
proof -
  obtain out w' where step: "processFile E options f w = (out, w')"
    by (cases "processFile E options f w")
  show ?thesis
    using processFiles_loop_acc [of E options files "pushed out" w']
    by (simp add: processFiles_def step)
qed

lemma processFiles_append:
  "processFiles E (xs @ ys) options w =
     (fst (processFiles E xs options w)
        @ fst (processFiles E ys options (snd (processFiles E xs options w))),
      snd (processFiles E ys options (snd (processFiles E xs options w))))"
  by (induction xs arbitrary: w) (simp_all add: processFiles_Nil processFiles_Cons)

lemma outcomes_Cons:
  "outcomes E options (f # files) w =
     fst (processFile E options f w) # outcomes E options files (snd (processFile E options f w))"
  by (simp split: prod.splits)

lemma length_outcomes: "length (outcomes E options files w) = length files"
  by (induction files arbitrary: w) (simp_all add: outcomes_Cons del: outcomes.simps(2))

lemma outcomes_append:
  "outcomes E options (xs @ ys) w =
     outcomes E options xs w @ outcomes E options ys (snd (processFiles E xs options w))"
  by (induction xs arbitrary: w)
     (simp_all add: outcomes_Cons processFiles_Nil processFiles_Cons del: outcomes.simps(2))

lemma processFiles_outcomes:
  "fst (processFiles E files options w) = concat (map pushed (outcomes E options files w))"
  by (induction files arbitrary: w)
     (simp_all add: outcomes_Cons processFiles_Nil processFiles_Cons del: outcomes.simps(2))

lemma outcomes_nth:
  assumes "i < length files"
  shows "outcomes E options files w ! i =
           fst (processFile E options (files ! i) (snd (processFiles E (take i files) options w)))"
proof -
  have "files = take i files @ files ! i # drop (Suc i) files"
    using assms by (simp add: id_take_nth_drop)
  then have "outcomes E options files w =
      outcomes E options (take i files) w
        @ outcomes E options (files ! i # drop (Suc i) files)
            (snd (processFiles E (take i files) options w))"
    using outcomes_append [of E options "take i files" "files ! i # drop (Suc i) files" w]
    by simp
  then show ?thesis
    using assms
    by (simp add: nth_append length_outcomes outcomes_Cons del: outcomes.simps(2))
qed

lemma processImage_Some:
  "processImage E fsys f options = Some img \<Longrightarrow>
     filename img = originalname f \<and> 0 < width img \<and> 0 < height img
     \<and> (\<exists>bytes. fsys (path f) = Some (File bytes))"
  by (auto simp: processImage_def processImage_try_def readFile_def falsy_def Let_def
           split: sum.splits option.splits node.splits if_splits)

lemma processFile_cases:
  "fst (processFile E options f w) =
     (case stat_size (dir_size E) (fs w) (path f) of
        Inl e \<Rightarrow> Failed e
      | Inr sz \<Rightarrow>
          if sz = 0 then EmptyUpload
          else (case classify f of
              Archive \<Rightarrow>
                (case fst (extractAndProcessImages E (path f) options w) of
                   Inl zipError \<Rightarrow> ExtractionFailed zipError
                 | Inr extractedImages \<Rightarrow> Extracted extractedImages)
            | DirectImage \<Rightarrow>
                (case processImage E (fs w) f options of
                   None \<Rightarrow> NotProcessed
                 | Some processedImage \<Rightarrow> Processed processedImage)
            | UnsupportedFile \<Rightarrow> Unsupported))"
  by (simp add: processFile_def processFile_try_def Let_def
           split: classification.splits prod.splits sum.splits option.splits)

lemma processFile_Processed:
  "fst (processFile E options f w) = Processed img \<Longrightarrow>
     classify f = DirectImage \<and> processImage E (fs w) f options = Some img"
  by (auto simp: processFile_cases split: sum.splits if_splits classification.splits option.splits)

lemma processFile_Extracted:
  "fst (processFile E options f w) = Extracted imgs \<Longrightarrow>
     classify f = Archive \<and> fst (extractAndProcessImages E (path f) options w) = Inr imgs"
  by (auto simp: processFile_cases split: sum.splits if_splits classification.splits option.splits)

lemma mkdirp_keeps:
  "mkdirp fsys d = Inr fs1 \<Longrightarrow> fsys p \<noteq> None \<Longrightarrow> fs1 p = fsys p"
  by (auto simp: mkdirp_def split: if_splits)

lemma extractAndProcessImages_Inr:
  assumes "fst (extractAndProcessImages E p options w) = Inr imgs"
  shows "\<exists>zipBuffer files. fs w p = Some (File zipBuffer) \<and> zipBuffer \<noteq> []
           \<and> jszip_loadAsync E zipBuffer = Inr files \<and> files \<noteq> []
           \<and> imgs = List.map_filter (processEntry E options) files"
proof -
  from assms obtain fs1 where
    ex: "fs w p \<noteq> None" and
    mk: "mkdirp (fs w) (extractDir E (now w)) = Inr fs1" and
    tr: "extract_try E p options fs1 = Inr imgs"
    by (auto simp: extractAndProcessImages_def existsSync_def Date_now_def Let_def
             split: if_splits sum.splits prod.splits)
  from assms have sz: "stat_size (dir_size E) (fs w) p \<noteq> Inr 0"
    by (auto simp: extractAndProcessImages_def split: if_splits sum.splits)
  have same: "fs1 p = fs w p" using mkdirp_keeps [OF mk ex] .
  from tr same sz show ?thesis
    by (auto simp: extract_try_def readFile_def stat_size_def processEntries_map_filter
             split: option.splits node.splits sum.splits if_splits)
qed

lemma addPages_images:
  "addPages E options n xs doc = (Inr u, pages) \<Longrightarrow>
     map page_image pages = map page_image doc @ map snd xs"
proof (induction xs arbitrary: doc)
  case Nil
  then show ?case by simp
next
  case (Cons x xs)
  obtain index img where x: "x = (index, img)" by (cases x)
  from Cons.prems obtain pw ph where
    sz: "pdfkit_page_size E (pageSize options) = Some (pw, ph)"
    and emb: "pdfkit_embeddable E (buffer img)"
    and rec: "addPages E options n xs (doc @ [compose_page pw ph options n index img])
                = (Inr u, pages)"
    by (auto simp: x split: option.splits if_splits)
  show ?case
    using Cons.IH [OF rec] by (simp add: x compose_page_def Let_def)
qed

subsection \<open>Order of the batch and of the pages\<close>

lemma all_processed_filenames:
  "(\<forall>out \<in> set (outcomes E options files w). \<exists>img. out = Processed img) \<Longrightarrow>
     map filename (fst (processFiles E files options w)) = map originalname files"
proof (induction files arbitrary: w)
  case Nil
  show ?case by (simp add: processFiles_Nil)
next
  case (Cons f files)
  from Cons.prems obtain img where out: "fst (processFile E options f w) = Processed img"
    by (auto simp: outcomes_Cons simp del: outcomes.simps(2))
  from Cons.prems have rest:
    "\<forall>out \<in> set (outcomes E options files (snd (processFile E options f w))). \<exists>img. out = Processed img"
    by (simp add: outcomes_Cons del: outcomes.simps(2))
  have "filename img = originalname f"
    using processFile_Processed [OF out] processImage_Some by blast
  then show ?case
    using Cons.IH [OF rest] by (simp add: processFiles_Cons out)
qed

lemma map_snd_enumerate: "map snd (enumerate n xs) = xs"
  by (induction xs arbitrary: n) simp_all

lemma generatePDF_Inr:
  assumes "generatePDF E images options w = (Inr p, w')"
  shows "\<exists>pages. fs w' p = Some (File (pdfkit_bytes E pages)) \<and> map page_image pages = images"
proof -
  obtain r doc where ap: "addPages E options (length images) (enumerate 0 images) [] = (r, doc)"
    by (cases "addPages E options (length images) (enumerate 0 images) []")
  from assms ap obtain u where r: "r = Inr u"
    by (cases r) (auto simp: generatePDF_def Let_def Date_now_def split: sum.splits if_splits option.splits)
  have imgs: "map page_image doc = images"
    using addPages_images [OF ap [unfolded r]] by (simp add: map_snd_enumerate)
  from assms ap r have "fs w' p = Some (File (pdfkit_bytes E doc))"
    by (auto simp: generatePDF_def Let_def Date_now_def split: sum.splits if_splits option.splits)
  with imgs show ?thesis by blast
qed

text \<open>
  C1. The batch processor returns the concatenation, in upload order, of what each upload
  contributed: there is one outcome per upload, the outcome of upload \<open>i\<close> is computed from
  upload \<open>i\<close> in the world its predecessors left, a loose image contributes the image that
  carries its own name, and an archive contributes the images of its entries in the order
  in which JSZip enumerates them. In particular a batch of loose images that are all
  processed comes back with the names in upload order. The composer writes one page per
  image, page \<open>i\<close> carrying image \<open>i\<close>, and the generated file is built from these pages.
\<close>

theorem batch_order_preserved:
  "length (outcomes E options files w) = length files
   \<and> fst (processFiles E files options w) = concat (map pushed (outcomes E options files w))
   \<and> (i < length files \<longrightarrow>
         outcomes E options files w ! i
           = fst (processFile E options (files ! i)
                   (snd (processFiles E (take i files) options w))))
   \<and> (fst (processFile E options f w0) = Processed img \<longrightarrow> filename img = originalname f)
   \<and> (fst (processFile E options f w0) = Extracted imgs \<longrightarrow>
         (\<exists>zipBuffer entries. fs w0 (path f) = Some (File zipBuffer)
            \<and> jszip_loadAsync E zipBuffer = Inr entries
            \<and> imgs = List.map_filter (processEntry E options) entries))
   \<and> ((\<forall>out \<in> set (outcomes E options files w). \<exists>img. out = Processed img) \<longrightarrow>
         map filename (fst (processFiles E files options w)) = map originalname files)
   \<and> (addPages E pdfopts (length images) (enumerate 0 images) [] = (Inr u, pages) \<longrightarrow>
         map page_image pages = images)
   \<and> (generatePDF E images pdfopts w1 = (Inr p, w2) \<longrightarrow>
         (\<exists>pages. fs w2 p = Some (File (pdfkit_bytes E pages)) \<and> map page_image pages = images))"
proof -
  have a: "fst (processFile E options f w0) = Processed img \<longrightarrow> filename img = originalname f"
    using processFile_Processed processImage_Some by blast
  have b: "fst (processFile E options f w0) = Extracted imgs \<longrightarrow>
         (\<exists>zipBuffer entries. fs w0 (path f) = Some (File zipBuffer)
            \<and> jszip_loadAsync E zipBuffer = Inr entries
            \<and> imgs = List.map_filter (processEntry E options) entries)"
    using processFile_Extracted extractAndProcessImages_Inr by blast
  have c: "addPages E pdfopts (length images) (enumerate 0 images) [] = (Inr u, pages) \<longrightarrow>
         map page_image pages = images"
    using addPages_images [of E pdfopts "length images" "enumerate 0 images" "[]" u pages]
    by (simp add: map_snd_enumerate)
  show ?thesis
    using a b c length_outcomes [of E options files w] processFiles_outcomes [of E files options w]
      outcomes_nth [of i files E options w] all_processed_filenames [of E options files w]
      generatePDF_Inr [of E images pdfopts w1 p w2]
    by blast
qed

lemma demo_outcomes:
  "outcomes demo_env \<lparr>quality = 80\<rparr> demo_uploads demo_world =
     [Processed \<lparr>buffer = [255, 216, 8, 6], filename = ''one.jpg'', width = 8, height = 6\<rparr>,
      Extracted
        [\<lparr>buffer = [255, 216, 8, 6], filename = ''a.jpg'', width = 8, height = 6\<rparr>,
         \<lparr>buffer = [255, 216, 3, 4], filename = ''b.webp'', width = 3, height = 4\<rparr>],
      Processed \<lparr>buffer = [255, 216, 5, 7], filename = ''two.png'', width = 5, height = 7\<rparr>]"
  by (simp add: run_simps name_simps demo_uploads_def demo_world_def outcomes_Cons
           del: outcomes.simps(2))

lemma demo_run:
  "fst (processFiles demo_env demo_uploads \<lparr>quality = 80\<rparr> demo_world) =
     [\<lparr>buffer = [255, 216, 8, 6], filename = ''one.jpg'', width = 8, height = 6\<rparr>,
      \<lparr>buffer = [255, 216, 8, 6], filename = ''a.jpg'', width = 8, height = 6\<rparr>,
      \<lparr>buffer = [255, 216, 3, 4], filename = ''b.webp'', width = 3, height = 4\<rparr>,
      \<lparr>buffer = [255, 216, 5, 7], filename = ''two.png'', width = 5, height = 7\<rparr>]"
  by (simp add: processFiles_outcomes demo_outcomes)

lemma demo_pdf:
  "generatePDF demo_env
     [\<lparr>buffer = [255, 216, 8, 6], filename = ''one.jpg'', width = 8, height = 6\<rparr>,
      \<lparr>buffer = [255, 216, 5, 7], filename = ''two.png'', width = 5, height = 7\<rparr>]
      \<lparr>showFilenames = True, pageSize = ''A4''\<rparr> \<lparr>fs = Map.empty, now = 5\<rparr>
   = (Inr [''srv'', ''tmp'', ''output'', ''converted_5.pdf''],
      snd (generatePDF demo_env
        [\<lparr>buffer = [255, 216, 8, 6], filename = ''one.jpg'', width = 8, height = 6\<rparr>,
         \<lparr>buffer = [255, 216, 5, 7], filename = ''two.png'', width = 5, height = 7\<rparr>]
         \<lparr>showFilenames = True, pageSize = ''A4''\<rparr> \<lparr>fs = Map.empty, now = 5\<rparr>))"
proof -
  have "fst (generatePDF demo_env
     [\<lparr>buffer = [255, 216, 8, 6], filename = ''one.jpg'', width = 8, height = 6\<rparr>,
      \<lparr>buffer = [255, 216, 5, 7], filename = ''two.png'', width = 5, height = 7\<rparr>]
      \<lparr>showFilenames = True, pageSize = ''A4''\<rparr> \<lparr>fs = Map.empty, now = 5\<rparr>)
   = Inr [''srv'', ''tmp'', ''output'', ''converted_5.pdf'']"
    by (simp add: generatePDF_def run_simps name_simps createWriteStream_error_def enumerate_eq_zip
        split: prod.splits)
  then show ?thesis by (simp add: prod_eq_iff)
qed

lemma demo_pages:
  "fst (addPages demo_env \<lparr>showFilenames = True, pageSize = ''A4''\<rparr>
     (length [\<lparr>buffer = [255, 216, 8, 6], filename = ''one.jpg'', width = 8, height = 6\<rparr>,
        \<lparr>buffer = [255, 216, 5, 7], filename = ''two.png'', width = 5, height = 7\<rparr>])
     (enumerate 0
       [\<lparr>buffer = [255, 216, 8, 6], filename = ''one.jpg'', width = 8, height = 6\<rparr>,
        \<lparr>buffer = [255, 216, 5, 7], filename = ''two.png'', width = 5, height = 7\<rparr>]) [])
   = Inr ()"
  by (simp add: demo_env_def name_simps enumerate_eq_zip)

theorem batch_order_preserved_witness:
  "length (outcomes demo_env \<lparr>quality = 80\<rparr> demo_uploads demo_world) = 3
   \<and> map filename (fst (processFiles demo_env demo_uploads \<lparr>quality = 80\<rparr> demo_world))
       = [''one.jpg'', ''a.jpg'', ''b.webp'', ''two.png'']
   \<and> outcomes demo_env \<lparr>quality = 80\<rparr> demo_uploads demo_world ! 1
       = fst (processFile demo_env \<lparr>quality = 80\<rparr> (demo_uploads ! 1)
               (snd (processFiles demo_env (take 1 demo_uploads) \<lparr>quality = 80\<rparr> demo_world)))
   \<and> outcomes demo_env \<lparr>quality = 80\<rparr> demo_uploads demo_world ! 1
       = Extracted
          [\<lparr>buffer = [255, 216, 8, 6], filename = ''a.jpg'', width = 8, height = 6\<rparr>,
           \<lparr>buffer = [255, 216, 3, 4], filename = ''b.webp'', width = 3, height = 4\<rparr>]
   \<and> map page_image
         (snd (addPages demo_env \<lparr>showFilenames = True, pageSize = ''A4''\<rparr>
           (length [\<lparr>buffer = [255, 216, 8, 6], filename = ''one.jpg'', width = 8, height = 6\<rparr>,
              \<lparr>buffer = [255, 216, 5, 7], filename = ''two.png'', width = 5, height = 7\<rparr>])
           (enumerate 0
             [\<lparr>buffer = [255, 216, 8, 6], filename = ''one.jpg'', width = 8, height = 6\<rparr>,
              \<lparr>buffer = [255, 216, 5, 7], filename = ''two.png'', width = 5, height = 7\<rparr>]) []))
       = [\<lparr>buffer = [255, 216, 8, 6], filename = ''one.jpg'', width = 8, height = 6\<rparr>,
          \<lparr>buffer = [255, 216, 5, 7], filename = ''two.png'', width = 5, height = 7\<rparr>]
   \<and> (\<exists>pages.
         fs (snd (generatePDF demo_env
               [\<lparr>buffer = [255, 216, 8, 6], filename = ''one.jpg'', width = 8, height = 6\<rparr>,
                \<lparr>buffer = [255, 216, 5, 7], filename = ''two.png'', width = 5, height = 7\<rparr>]
               \<lparr>showFilenames = True, pageSize = ''A4''\<rparr> \<lparr>fs = Map.empty, now = 5\<rparr>))
            [''srv'', ''tmp'', ''output'', ''converted_5.pdf'']
           = Some (File (pdfkit_bytes demo_env pages))
         \<and> map page_image pages
           = [\<lparr>buffer = [255, 216, 8, 6], filename = ''one.jpg'', width = 8, height = 6\<rparr>,
              \<lparr>buffer = [255, 216, 5, 7], filename = ''two.png'', width = 5, height = 7\<rparr>])"
proof -
  let ?imgs = "[\<lparr>buffer = [255, 216, 8, 6], filename = ''one.jpg'', width = 8, height = 6\<rparr>,
                \<lparr>buffer = [255, 216, 5, 7], filename = ''two.png'', width = 5, height = 7\<rparr>]"
  let ?po = "\<lparr>showFilenames = True, pageSize = ''A4''\<rparr>"
  have pg: "addPages demo_env ?po (length ?imgs) (enumerate 0 ?imgs) []
              = (Inr (), snd (addPages demo_env ?po (length ?imgs) (enumerate 0 ?imgs) []))"
    by (rule prod_eqI) (simp_all only: fst_conv snd_conv demo_pages)
  note t = batch_order_preserved
    [where E = demo_env and options = "\<lparr>quality = 80\<rparr>" and files = demo_uploads
       and w = demo_world and i = 1 and f = "demo_uploads ! 1"
       and ?w0.0 = "snd (processFiles demo_env (take 1 demo_uploads) \<lparr>quality = 80\<rparr> demo_world)"
       and imgs = "[\<lparr>buffer = [255, 216, 8, 6], filename = ''a.jpg'', width = 8, height = 6\<rparr>,
           \<lparr>buffer = [255, 216, 3, 4], filename = ''b.webp'', width = 3, height = 4\<rparr>]"
       and images = ?imgs and pdfopts = ?po and u = "()"
       and pages = "snd (addPages demo_env ?po (length ?imgs) (enumerate 0 ?imgs) [])"
       and ?w1.0 = "\<lparr>fs = Map.empty, now = 5\<rparr>"
       and p = "[''srv'', ''tmp'', ''output'', ''converted_5.pdf'']"
       and ?w2.0 = "snd (generatePDF demo_env ?imgs ?po \<lparr>fs = Map.empty, now = 5\<rparr>)"]
  have len: "length demo_uploads = 3" by (simp add: demo_uploads_def)
  show ?thesis
    using t pg demo_pdf demo_run demo_outcomes len by (simp del: addPages.simps)
qed

subsection \<open>Isolation of a failing upload\<close>

lemma pushed_failed: "failed out \<Longrightarrow> pushed out = []"
  by (cases out) simp_all

lemma concat_pushed_length:
  "(\<forall>out \<in> set outs. \<exists>img. out = Processed img) \<Longrightarrow>
     length (concat (map pushed outs)) = length outs"
  by (induction outs) auto

lemma processFile_missing:
  "fs w0 (path f) = None \<Longrightarrow> fst (processFile E options f w0) = Failed ENOENT"
  by (simp add: processFile_cases stat_size_def)

lemma processFile_undecodable:
  assumes "fs w0 (path f) = Some (File bytes)" "bytes \<noteq> []" "classify f = DirectImage"
    and "sharp_metadata E bytes = Inl e"
  shows "fst (processFile E options f w0) = NotProcessed"
  using assms
  by (simp add: processFile_cases stat_size_def processImage_def processImage_try_def readFile_def)

lemma processFile_extraction_error:
  assumes "fs w0 (path f) = Some (File bytes)" "bytes \<noteq> []" "classify f = Archive"
    and "fst (extractAndProcessImages E (path f) options w0) = Inl e"
  shows "fst (processFile E options f w0) = ExtractionFailed e"
  using assms by (simp add: processFile_cases stat_size_def)

text \<open>
  C2. When one upload of a batch fails (its file cannot be read, the image does not decode,
  or the extractor raises), the failure stays inside its iteration: there is still one
  outcome per upload, every other upload is processed in the world its predecessors left,
  the failing upload contributes nothing, and the batch returns exactly what the other
  uploads contributed; when each of them is a successfully processed image, that is one
  image per other upload. \<open>processFiles\<close> always returns a list: no error leaves it.
\<close>

theorem failed_upload_isolated:
  assumes "i < length files" and "failed (outcomes E options files w ! i)"
  shows "length (outcomes E options files w) = length files
     \<and> pushed (outcomes E options files w ! i) = []
     \<and> fst (processFiles E files options w)
         = concat (map pushed (take i (outcomes E options files w)
                               @ drop (Suc i) (outcomes E options files w)))
     \<and> (j < length files \<longrightarrow>
           outcomes E options files w ! j
             = fst (processFile E options (files ! j)
                     (snd (processFiles E (take j files) options w))))
     \<and> ((\<forall>out \<in> set (take i (outcomes E options files w)
                        @ drop (Suc i) (outcomes E options files w)).
            \<exists>img. out = Processed img) \<longrightarrow>
           length (fst (processFiles E files options w)) = length files - 1)
     \<and> (fs w0 (path f) = None \<longrightarrow> failed (fst (processFile E options f w0)))
     \<and> (fs w0 (path f) = Some (File bytes) \<and> bytes \<noteq> [] \<and> classify f = DirectImage
          \<and> sharp_metadata E bytes = Inl e \<longrightarrow> failed (fst (processFile E options f w0)))
     \<and> (fs w0 (path f) = Some (File bytes) \<and> bytes \<noteq> [] \<and> classify f = Archive
          \<and> fst (extractAndProcessImages E (path f) options w0) = Inl e
          \<longrightarrow> failed (fst (processFile E options f w0)))"
proof -
  let ?outs = "outcomes E options files w"
  let ?others = "take i ?outs @ drop (Suc i) ?outs"
  have len: "length ?outs = length files" by (rule length_outcomes)
  have none: "pushed (?outs ! i) = []" using assms(2) by (rule pushed_failed)
  have split: "?outs = take i ?outs @ ?outs ! i # drop (Suc i) ?outs"
    using assms(1) len by (simp add: id_take_nth_drop)
  have "concat (map pushed ?outs)
          = concat (map pushed (take i ?outs)) @ pushed (?outs ! i)
            @ concat (map pushed (drop (Suc i) ?outs))"
    by (subst split) simp
  then have res: "fst (processFiles E files options w) = concat (map pushed ?others)"
    by (simp add: processFiles_outcomes none)
  have cnt: "length (fst (processFiles E files options w)) = length files - 1"
    if "\<forall>out \<in> set ?others. \<exists>img. out = Processed img"
  proof -
    have "length (concat (map pushed ?others)) = length ?others"
      using that by (rule concat_pushed_length)
    also have "\<dots> = length files - 1" using assms(1) len by simp
    finally show ?thesis by (simp only: res)
  qed
  have nth: "j < length files \<longrightarrow>
           ?outs ! j = fst (processFile E options (files ! j)
                     (snd (processFiles E (take j files) options w)))"
    using outcomes_nth by blast
  have f1: "fs w0 (path f) = None \<longrightarrow> failed (fst (processFile E options f w0))"
    by (simp add: processFile_missing)
  have f2: "fs w0 (path f) = Some (File bytes) \<and> bytes \<noteq> [] \<and> classify f = DirectImage
          \<and> sharp_metadata E bytes = Inl e \<longrightarrow> failed (fst (processFile E options f w0))"
    by (simp add: processFile_undecodable)
  have f3: "fs w0 (path f) = Some (File bytes) \<and> bytes \<noteq> [] \<and> classify f = Archive
          \<and> fst (extractAndProcessImages E (path f) options w0) = Inl e
          \<longrightarrow> failed (fst (processFile E options f w0))"
    by (simp add: processFile_extraction_error)
  show ?thesis using len none res cnt nth f1 f2 f3 by blast
qed

lemma demo_corrupt_outcomes:
  "outcomes demo_env \<lparr>quality = 80\<rparr> demo_corrupt_batch demo_corrupt_world =
     [Processed \<lparr>buffer = [255, 216, 8, 6], filename = ''one.jpg'', width = 8, height = 6\<rparr>,
      NotProcessed,
      Processed \<lparr>buffer = [255, 216, 5, 7], filename = ''two.png'', width = 5, height = 7\<rparr>]"
  by (simp add: run_simps name_simps demo_corrupt_batch_def demo_corrupt_world_def outcomes_Cons
           del: outcomes.simps(2))

theorem failed_upload_isolated_witness:
  "failed (outcomes demo_env \<lparr>quality = 80\<rparr> demo_corrupt_batch demo_corrupt_world ! 1)
   \<and> length (outcomes demo_env \<lparr>quality = 80\<rparr> demo_corrupt_batch demo_corrupt_world) = 3
   \<and> fst (processFiles demo_env demo_corrupt_batch \<lparr>quality = 80\<rparr> demo_corrupt_world)
       = [\<lparr>buffer = [255, 216, 8, 6], filename = ''one.jpg'', width = 8, height = 6\<rparr>,
          \<lparr>buffer = [255, 216, 5, 7], filename = ''two.png'', width = 5, height = 7\<rparr>]
   \<and> length (fst (processFiles demo_env demo_corrupt_batch \<lparr>quality = 80\<rparr> demo_corrupt_world)) = 2
   \<and> outcomes demo_env \<lparr>quality = 80\<rparr> demo_corrupt_batch demo_corrupt_world ! 2
       = fst (processFile demo_env \<lparr>quality = 80\<rparr> (demo_corrupt_batch ! 2)
               (snd (processFiles demo_env (take 2 demo_corrupt_batch) \<lparr>quality = 80\<rparr>
                       demo_corrupt_world)))
   \<and> failed (fst (processFile demo_env \<lparr>quality = 80\<rparr>
         \<lparr>originalname = ''gone.jpg'', mimetype = ''image/jpeg'',
          path = [''srv'', ''tmp'', ''uploads'', ''files-9.jpg'']\<rparr> demo_corrupt_world))
   \<and> failed (fst (processFile demo_env \<lparr>quality = 80\<rparr>
         \<lparr>originalname = ''broken.jpg'', mimetype = ''image/jpeg'',
          path = [''srv'', ''tmp'', ''uploads'', ''files-4.jpg'']\<rparr> demo_corrupt_world))
   \<and> failed (fst (processFile demo_env \<lparr>quality = 80\<rparr>
         \<lparr>originalname = ''broken.zip'', mimetype = ''application/zip'',
          path = [''srv'', ''tmp'', ''uploads'', ''files-4.jpg'']\<rparr> demo_corrupt_world))"
proof -
  let ?outs = "outcomes demo_env \<lparr>quality = 80\<rparr> demo_corrupt_batch demo_corrupt_world"
  have len: "length demo_corrupt_batch = 3" by (simp add: demo_corrupt_batch_def)
  have p1: "1 < length demo_corrupt_batch" by (simp add: len)
  have p2: "failed (?outs ! 1)" by (simp add: demo_corrupt_outcomes)
  note tA = failed_upload_isolated
    [where j = 2 and ?w0.0 = demo_corrupt_world
       and f = "\<lparr>originalname = ''gone.jpg'', mimetype = ''image/jpeg'',
          path = [''srv'', ''tmp'', ''uploads'', ''files-9.jpg'']\<rparr>", OF p1 p2]
  note tB = failed_upload_isolated
    [where j = 2 and ?w0.0 = demo_corrupt_world
       and f = "\<lparr>originalname = ''broken.jpg'', mimetype = ''image/jpeg'',
          path = [''srv'', ''tmp'', ''uploads'', ''files-4.jpg'']\<rparr>" and bytes = "[1, 2, 3]"
       and e = "LibraryError ''Input buffer contains unsupported image format''", OF p1 p2]
  note tC = failed_upload_isolated
    [where j = 2 and ?w0.0 = demo_corrupt_world
       and f = "\<lparr>originalname = ''broken.zip'', mimetype = ''application/zip'',
          path = [''srv'', ''tmp'', ''uploads'', ''files-4.jpg'']\<rparr>" and bytes = "[1, 2, 3]"
       and e = "ZipInvalid ''files-4.jpg''", OF p1 p2]
  note c1 = tA [THEN conjunct1]
  note c3 = tA [THEN conjunct2, THEN conjunct2, THEN conjunct1]
  note c4 = tA [THEN conjunct2, THEN conjunct2, THEN conjunct2, THEN conjunct1]
  note c5 = tA [THEN conjunct2, THEN conjunct2, THEN conjunct2, THEN conjunct2, THEN conjunct1]
  note c6 = tA [THEN conjunct2, THEN conjunct2, THEN conjunct2, THEN conjunct2, THEN conjunct2,
               THEN conjunct1]
  note c7 = tB [THEN conjunct2, THEN conjunct2, THEN conjunct2, THEN conjunct2, THEN conjunct2,
               THEN conjunct2, THEN conjunct1]
  note c8 = tC [THEN conjunct2, THEN conjunct2, THEN conjunct2, THEN conjunct2, THEN conjunct2,
               THEN conjunct2, THEN conjunct2]
  have g2: "length ?outs = 3" using c1 by (simp only: len)
  have g3: "fst (processFiles demo_env demo_corrupt_batch \<lparr>quality = 80\<rparr> demo_corrupt_world)
       = [\<lparr>buffer = [255, 216, 8, 6], filename = ''one.jpg'', width = 8, height = 6\<rparr>,
          \<lparr>buffer = [255, 216, 5, 7], filename = ''two.png'', width = 5, height = 7\<rparr>]"
    by (subst c3) (simp add: demo_corrupt_outcomes)
  have g4: "length (fst (processFiles demo_env demo_corrupt_batch \<lparr>quality = 80\<rparr>
                    demo_corrupt_world)) = 2"
    using c5 by (simp add: demo_corrupt_outcomes len)
  have g5: "?outs ! 2
       = fst (processFile demo_env \<lparr>quality = 80\<rparr> (demo_corrupt_batch ! 2)
               (snd (processFiles demo_env (take 2 demo_corrupt_batch) \<lparr>quality = 80\<rparr>
                       demo_corrupt_world)))"
    using c4 by (simp only: len)
  have fsw: "fs demo_corrupt_world [''srv'', ''tmp'', ''uploads'', ''files-9.jpg''] = None"
    "fs demo_corrupt_world [''srv'', ''tmp'', ''uploads'', ''files-4.jpg''] = Some (File [1, 2, 3])"
    by (simp_all add: demo_corrupt_world_def)
  have md: "sharp_metadata demo_env [1, 2, 3]
       = Inl (LibraryError ''Input buffer contains unsupported image format'')"
    by (simp add: demo_env_def)
  have cl: "classify \<lparr>originalname = ''broken.jpg'', mimetype = ''image/jpeg'',
          path = [''srv'', ''tmp'', ''uploads'', ''files-4.jpg'']\<rparr> = DirectImage"
    "classify \<lparr>originalname = ''broken.zip'', mimetype = ''application/zip'',
          path = [''srv'', ''tmp'', ''uploads'', ''files-4.jpg'']\<rparr> = Archive"
    by (simp_all add: classify_def isZip_def fileExt_def uploadImageExtensions_def name_simps)
  have ex: "fst (extractAndProcessImages demo_env [''srv'', ''tmp'', ''uploads'', ''files-4.jpg'']
           \<lparr>quality = 80\<rparr> demo_corrupt_world) = Inl (ZipInvalid ''files-4.jpg'')"
    by (simp add: run_simps demo_corrupt_world_def)
  have g6: "failed (fst (processFile demo_env \<lparr>quality = 80\<rparr>
         \<lparr>originalname = ''gone.jpg'', mimetype = ''image/jpeg'',
          path = [''srv'', ''tmp'', ''uploads'', ''files-9.jpg'']\<rparr> demo_corrupt_world))"
    using c6 fsw(1) by simp
  have g7: "failed (fst (processFile demo_env \<lparr>quality = 80\<rparr>
         \<lparr>originalname = ''broken.jpg'', mimetype = ''image/jpeg'',
          path = [''srv'', ''tmp'', ''uploads'', ''files-4.jpg'']\<rparr> demo_corrupt_world))"
    using c7 fsw(2) md cl(1) by simp
  have g8: "failed (fst (processFile demo_env \<lparr>quality = 80\<rparr>
         \<lparr>originalname = ''broken.zip'', mimetype = ''application/zip'',
          path = [''srv'', ''tmp'', ''uploads'', ''files-4.jpg'']\<rparr> demo_corrupt_world))"
    using c8 fsw(2) ex cl(2) by simp
  show ?thesis
    by (intro conjI) (fact p2 g2 g3 g4 g5 g6 g7 g8)+
qed

subsection \<open>Empty results\<close>

lemma processEntry_not_image:
  "dir z \<or> toLowerCase (path_extname (path_basename (relativePath z))) \<notin> set imageExtensions
     \<Longrightarrow> processEntry E options z = None"
  by (auto simp: processEntry_def Let_def split: sum.splits)

lemma map_filter_all_None:
  "(\<forall>x \<in> set xs. f x = None) \<Longrightarrow> List.map_filter f xs = []"
  by (induction xs) (simp_all add: List.map_filter_simps)

lemma extractAndProcessImages_run:
  assumes "fs w p = Some (File zipBuffer)" and "zipBuffer \<noteq> []"
    and "mkdirp (fs w) (extractDir E (now w)) = Inr fs1"
  shows "extractAndProcessImages E p options w =
           ((case jszip_loadAsync E zipBuffer of
               Inl zipError \<Rightarrow> Inl (ZipInvalid (basename_of p))
             | Inr files \<Rightarrow>
                 if files = [] then Inl (ZipNoEntries (basename_of p))
                 else Inr (List.map_filter (processEntry E options) files)),
            \<lparr>fs = remove_tree fs1 (extractDir E (now w)), now = tick E (now w)\<rparr>)"
proof -
  have same: "fs1 p = Some (File zipBuffer)"
    using mkdirp_keeps [OF assms(3), of p] assms(1) by simp
  show ?thesis
    using assms same
    by (simp add: extractAndProcessImages_def existsSync_def stat_size_def Date_now_def
          extract_try_def readFile_def processEntries_map_filter split: sum.splits)
qed

text \<open>
  The claim C6 that every archive that parses as a container and has no image entry yields
  the empty list fails for the archive without any entry: JSZip loads it, and the extractor
  raises \<^verbatim>\<open>ZIP file is empty\<close>.
\<close>

theorem empty_archive_counterexample:
  "jszip_loadAsync demo_env [80, 75, 0] = Inr []
   \<and> fst (extractAndProcessImages demo_env [''srv'', ''tmp'', ''uploads'', ''files-5.zip'']
           \<lparr>quality = 80\<rparr>
           \<lparr>fs = [[''srv'', ''tmp'', ''uploads'', ''files-5.zip''] \<mapsto> File [80, 75, 0]],
            now = 1000\<rparr>)
       = Inl (ZipNoEntries ''files-5.zip'')"
  by (simp add: run_simps)

text \<open>
  C6, amended. An archive that can be read and parsed, has at least one entry and has no
  entry that is a file with a recognised image extension makes the extractor return the
  empty list, not an error; an archive that parses with no entry at all makes it raise
  \<^verbatim>\<open>ZIP file is empty\<close>. A request whose batch yields no image is answered with the
  status-400 failure \<^verbatim>\<open>No valid images found in the uploaded files\<close> in the world that
  the batch processor left (the composer is not run, no document is written), and a
  request without uploads with \<^verbatim>\<open>No files were uploaded\<close>.
\<close>

theorem empty_results:
  "(fs w p = Some (File zipBuffer) \<and> zipBuffer \<noteq> []
      \<and> (\<exists>fs1. mkdirp (fs w) (extractDir E (now w)) = Inr fs1)
      \<and> jszip_loadAsync E zipBuffer = Inr entries \<and> entries \<noteq> []
      \<and> (\<forall>z \<in> set entries.
            dir z \<or> toLowerCase (path_extname (path_basename (relativePath z)))
                       \<notin> set imageExtensions)
      \<longrightarrow> fst (extractAndProcessImages E p options w) = Inr [])
   \<and> (fs w p = Some (File zipBuffer) \<and> zipBuffer \<noteq> []
      \<and> (\<exists>fs1. mkdirp (fs w) (extractDir E (now w)) = Inr fs1)
      \<and> jszip_loadAsync E zipBuffer = Inr []
      \<longrightarrow> fst (extractAndProcessImages E p options w) = Inl (ZipNoEntries (basename_of p)))
   \<and> (req_files req = Some files \<and> files \<noteq> []
      \<and> fst (processFiles E files
               \<lparr>quality = qualityValue (orElse (body_imageQuality req) ''medium'')\<rparr> w) = []
      \<longrightarrow> convertToPdf E req w
           = (Json 400 False ''No valid images found in the uploaded files'',
              snd (processFiles E files
                    \<lparr>quality = qualityValue (orElse (body_imageQuality req) ''medium'')\<rparr> w)))
   \<and> (req_files req = None \<or> req_files req = Some []
      \<longrightarrow> convertToPdf E req w = (Json 400 False ''No files were uploaded'', w))"
proof -
  have a: "fst (extractAndProcessImages E p options w) = Inr []"
    if h: "fs w p = Some (File zipBuffer)" "zipBuffer \<noteq> []"
      "\<exists>fs1. mkdirp (fs w) (extractDir E (now w)) = Inr fs1"
      "jszip_loadAsync E zipBuffer = Inr entries" "entries \<noteq> []"
      "\<forall>z \<in> set entries.
            dir z \<or> toLowerCase (path_extname (path_basename (relativePath z)))
                       \<notin> set imageExtensions"
  proof -
    have "\<forall>z \<in> set entries. processEntry E options z = None"
      using h(6) processEntry_not_image by blast
    then have "List.map_filter (processEntry E options) entries = []"
      by (rule map_filter_all_None)
    moreover obtain fs1 where "mkdirp (fs w) (extractDir E (now w)) = Inr fs1"
      using h(3) by blast
    ultimately show ?thesis
      using extractAndProcessImages_run [OF h(1,2), of E fs1 options] h(4,5) by simp
  qed
  have b: "fst (extractAndProcessImages E p options w) = Inl (ZipNoEntries (basename_of p))"
    if h: "fs w p = Some (File zipBuffer)" "zipBuffer \<noteq> []"
      "\<exists>fs1. mkdirp (fs w) (extractDir E (now w)) = Inr fs1"
      "jszip_loadAsync E zipBuffer = Inr []"
  proof -
    obtain fs1 where "mkdirp (fs w) (extractDir E (now w)) = Inr fs1"
      using h(3) by blast
    then show ?thesis
      using extractAndProcessImages_run [OF h(1,2), of E fs1 options] h(4) by simp
  qed
  have c: "convertToPdf E req w
           = (Json 400 False ''No valid images found in the uploaded files'',
              snd (processFiles E files
                    \<lparr>quality = qualityValue (orElse (body_imageQuality req) ''medium'')\<rparr> w))"
    if "req_files req = Some files" "files \<noteq> []"
      "fst (processFiles E files
               \<lparr>quality = qualityValue (orElse (body_imageQuality req) ''medium'')\<rparr> w) = []"
  proof -
    obtain imgs w1 where pf: "processFiles E files
        \<lparr>quality = qualityValue (orElse (body_imageQuality req) ''medium'')\<rparr> w = (imgs, w1)"
      by (cases "processFiles E files
        \<lparr>quality = qualityValue (orElse (body_imageQuality req) ''medium'')\<rparr> w")
    with that(3) have "imgs = []" by simp
    then show ?thesis
      using that(1,2) pf by (simp add: convertToPdf_def convertToPdf_try_def Let_def)
  qed
  have d: "convertToPdf E req w = (Json 400 False ''No files were uploaded'', w)"
    if "req_files req = None \<or> req_files req = Some []"
    using that by (auto simp: convertToPdf_def convertToPdf_try_def)
  show ?thesis using a b c d by blast
qed

theorem empty_results_witness:
  "jszip_loadAsync demo_env [80, 75, 2]
     = Inr [\<lparr>relativePath = ''notes.txt'', dir = False, content = Inr [104, 105]\<rparr>]
   \<and> fst (extractAndProcessImages demo_env [''srv'', ''tmp'', ''uploads'', ''files-6.zip'']
           \<lparr>quality = 80\<rparr>
           \<lparr>fs = [[''srv'', ''tmp'', ''uploads'', ''files-6.zip''] \<mapsto> File [80, 75, 2]],
            now = 1000\<rparr>) = Inr []
   \<and> fst (convertToPdf demo_env
           \<lparr>req_files = Some [\<lparr>originalname = ''docs.zip'', mimetype = ''application/zip'',
                                path = [''srv'', ''tmp'', ''uploads'', ''files-6.zip'']\<rparr>],
            body_showFilenames = Some ''true'', body_imageQuality = Some ''high'',
            body_pageSize = None\<rparr>
           \<lparr>fs = [[''srv'', ''tmp'', ''uploads'', ''files-6.zip''] \<mapsto> File [80, 75, 2]],
            now = 1000\<rparr>)
       = Json 400 False ''No valid images found in the uploaded files''
   \<and> convertToPdf demo_env
         \<lparr>req_files = None, body_showFilenames = None, body_imageQuality = None,
          body_pageSize = None\<rparr> \<lparr>fs = Map.empty, now = 1000\<rparr>
       = (Json 400 False ''No files were uploaded'', \<lparr>fs = Map.empty, now = 1000\<rparr>)"
proof -
  let ?p = "[''srv'', ''tmp'', ''uploads'', ''files-6.zip'']"
  let ?w = "\<lparr>fs = [?p \<mapsto> File [80, 75, 2]], now = 1000\<rparr>"
  let ?up = "\<lparr>originalname = ''docs.zip'', mimetype = ''application/zip'', path = ?p\<rparr>"
  let ?req = "\<lparr>req_files = Some [?up], body_showFilenames = Some ''true'',
               body_imageQuality = Some ''high'', body_pageSize = None\<rparr>"
  have batch: "fst (processFiles demo_env [?up]
                 \<lparr>quality = qualityValue (orElse (body_imageQuality ?req) ''medium'')\<rparr> ?w) = []"
    by (simp add: processFiles_single run_simps name_simps qualityValue_def orElse_def)
  have ld: "jszip_loadAsync demo_env [80, 75, 2]
     = Inr [\<lparr>relativePath = ''notes.txt'', dir = False, content = Inr [104, 105]\<rparr>]"
    by (simp add: demo_env_def)
  have mk: "\<exists>fs1. mkdirp (fs ?w) (extractDir demo_env (now ?w)) = Inr fs1"
    by (simp add: run_simps)
  have ext: "toLowerCase (path_extname (path_basename ''notes.txt'')) \<notin> set imageExtensions"
    by (simp add: name_simps)
  note t1 = empty_results
    [where E = demo_env and w = ?w and p = ?p and zipBuffer = "[80, 75, 2]"
       and entries = "[\<lparr>relativePath = ''notes.txt'', dir = False, content = Inr [104, 105]\<rparr>]"
       and options = "\<lparr>quality = 80\<rparr>" and req = ?req and files = "[?up]"]
  note t2 = empty_results
    [where E = demo_env and w = "\<lparr>fs = Map.empty, now = 1000\<rparr>"
       and req = "\<lparr>req_files = None, body_showFilenames = None, body_imageQuality = None,
          body_pageSize = None\<rparr>"]
  have g2: "fst (extractAndProcessImages demo_env ?p \<lparr>quality = 80\<rparr> ?w) = Inr []"
    using t1 [THEN conjunct1] ld mk ext by simp
  have g3: "fst (convertToPdf demo_env ?req ?w)
              = Json 400 False ''No valid images found in the uploaded files''"
    using t1 [THEN conjunct2, THEN conjunct2, THEN conjunct1] batch by simp
  have g4: "convertToPdf demo_env
         \<lparr>req_files = None, body_showFilenames = None, body_imageQuality = None,
          body_pageSize = None\<rparr> \<lparr>fs = Map.empty, now = 1000\<rparr>
       = (Json 400 False ''No files were uploaded'', \<lparr>fs = Map.empty, now = 1000\<rparr>)"
    using t2 [THEN conjunct2, THEN conjunct2, THEN conjunct2] by simp
  show ?thesis
    by (intro conjI) (fact ld g2 g3 g4)+
qed

subsection \<open>Release of transient resources\<close>

lemma mkdirp_is_file:
  "mkdirp fsys d = Inr fs1 \<Longrightarrow> is_file (fs1 q) = is_file (fsys q)"
  by (auto simp: mkdirp_def is_file_def split: if_splits)

lemma remove_tree_is_file: "is_file (remove_tree fsys d q) \<Longrightarrow> is_file (fsys q)"
  by (auto simp: remove_tree_def is_file_def split: if_splits)

lemma extractAndProcessImages_is_file:
  "is_file (fs (snd (extractAndProcessImages E p options w)) q) \<Longrightarrow> is_file (fs w q)"
  by (auto simp: extractAndProcessImages_def Date_now_def Let_def mkdirp_is_file
           split: if_splits sum.splits dest!: remove_tree_is_file)

lemma processFile_try_world:
  "snd (processFile_try E options f w) = w
   \<or> snd (processFile_try E options f w) = snd (extractAndProcessImages E (path f) options w)"
  by (auto simp: processFile_try_def
           split: sum.splits if_splits classification.splits prod.splits option.splits)

lemma processFile_try_is_file:
  "is_file (fs (snd (processFile_try E options f w)) q) \<Longrightarrow> is_file (fs w q)"
  using processFile_try_world [of E options f w] extractAndProcessImages_is_file [of E "path f" options w q]
  by auto

lemma processFile_world:
  "fs (snd (processFile E options f w)) =
     (let fs1 = fs (snd (processFile_try E options f w))
      in if is_file (fs1 (path f)) then fs1(path f := None) else fs1)"
  by (auto simp: processFile_def Let_def unlink_def is_file_def
           split: prod.splits sum.splits option.splits node.splits)

lemma processFile_unlinked: "\<not> is_file (fs (snd (processFile E options f w)) (path f))"
  by (simp add: processFile_world Let_def is_file_def)

lemma processFile_is_file:
  "is_file (fs (snd (processFile E options f w)) q) \<Longrightarrow> is_file (fs w q)"
  by (auto simp: processFile_world Let_def split: if_splits
           dest: processFile_try_is_file)

lemma processFiles_is_file:
  "is_file (fs (snd (processFiles E files options w)) q) \<Longrightarrow> is_file (fs w q)"
  by (induction files arbitrary: w)
     (auto simp: processFiles_Nil processFiles_Cons dest: processFile_is_file)

lemma processFiles_unlinked:
  assumes "i < j" and "j \<le> length files"
  shows "\<not> is_file (fs (snd (processFiles E (take j files) options w)) (path (files ! i)))"
proof -
  have i: "i < length files" using assms by simp
  have ij: "i < length (take j files)" using assms by simp
  have "take j files = take i (take j files) @ take j files ! i # drop (Suc i) (take j files)"
    using ij by (rule id_take_nth_drop)
  moreover have "take i (take j files) = take i files" using assms by (simp add: min_def)
  moreover have "take j files ! i = files ! i" using assms by simp
  ultimately have "take j files = take i files @ files ! i # drop (Suc i) (take j files)"
    by simp
  then obtain ys where split: "take j files = take i files @ files ! i # ys" by blast
  let ?w1 = "snd (processFiles E (take i files) options w)"
  have "snd (processFiles E (take j files) options w)
          = snd (processFiles E ys options (snd (processFile E options (files ! i) ?w1)))"
    by (simp add: split processFiles_append processFiles_Cons)
  then show ?thesis
    using processFiles_is_file [of E ys options "snd (processFile E options (files ! i) ?w1)"
            "path (files ! i)"]
          processFile_unlinked [of E options "files ! i" ?w1]
    by auto
qed

lemma extractDir_parent:
  "extractDir E t = (cwd E @ [''tmp'', ''extracted'']) @ [''zip_'' @ decimal t]"
  by (simp add: extractDir_def)

lemma strict_prefix_extractDir:
  "prefix q (extractDir E t) \<Longrightarrow> \<not> prefix (extractDir E t) q \<Longrightarrow>
     prefix q (cwd E @ [''tmp'', ''extracted''])"
  unfolding extractDir_parent prefix_snoc by auto

lemma extract_acquired:
  assumes "existsSync (fs w) p" and "stat_size (dir_size E) (fs w) p \<noteq> Inr 0"
    and "mkdirp (fs w) (extractDir E (now w)) = Inr fs1"
  shows "snd (extractAndProcessImages E p options w)
           = \<lparr>fs = remove_tree fs1 (extractDir E (now w)), now = tick E (now w)\<rparr>"
  using assms
  by (auto simp: extractAndProcessImages_def Date_now_def Let_def existsSync_def stat_size_def
           split: sum.splits option.splits node.splits)

lemma extract_not_acquired:
  assumes "\<not> (existsSync (fs w) p \<and> stat_size (dir_size E) (fs w) p \<noteq> Inr 0
             \<and> (\<exists>fs1. mkdirp (fs w) (extractDir E (now w)) = Inr fs1))"
  shows "fs (snd (extractAndProcessImages E p options w)) = fs w
         \<and> isl (fst (extractAndProcessImages E p options w))"
  using assms
  by (auto simp: extractAndProcessImages_def Date_now_def Let_def existsSync_def stat_size_def
           split: sum.splits option.splits node.splits)

lemma extract_leaves_nothing:
  assumes "fs (snd (extractAndProcessImages E p options w)) q \<noteq> None"
  shows "fs w q \<noteq> None \<or> prefix q (cwd E @ [''tmp'', ''extracted''])"
proof (cases "existsSync (fs w) p \<and> stat_size (dir_size E) (fs w) p \<noteq> Inr 0
             \<and> (\<exists>fs1. mkdirp (fs w) (extractDir E (now w)) = Inr fs1)")
  case True
  then obtain fs1 where mk: "mkdirp (fs w) (extractDir E (now w)) = Inr fs1" by blast
  have "fs (snd (extractAndProcessImages E p options w)) = remove_tree fs1 (extractDir E (now w))"
    using extract_acquired [OF _ _ mk, of p options] True by simp
  with assms have np: "\<not> prefix (extractDir E (now w)) q" and f1: "fs1 q \<noteq> None"
    by (auto simp: remove_tree_def split: if_splits)
  from mk f1 have "fs w q \<noteq> None \<or> prefix q (extractDir E (now w))"
    by (auto simp: mkdirp_def split: if_splits)
  then show ?thesis using np strict_prefix_extractDir by blast
next
  case False
  then show ?thesis using extract_not_acquired [OF False, of options] assms by simp
qed

lemma processFile_leaves_nothing:
  assumes "fs (snd (processFile E options f w)) q \<noteq> None"
  shows "fs w q \<noteq> None \<or> prefix q (cwd E @ [''tmp'', ''extracted''])"
proof -
  from assms have "fs (snd (processFile_try E options f w)) q \<noteq> None"
    by (auto simp: processFile_world Let_def split: if_splits)
  then show ?thesis
    using processFile_try_world [of E options f w] extract_leaves_nothing [of E "path f" options w q]
    by auto
qed

lemma processFiles_leaves_nothing:
  "fs (snd (processFiles E files options w)) q \<noteq> None \<Longrightarrow>
     fs w q \<noteq> None \<or> prefix q (cwd E @ [''tmp'', ''extracted''])"
proof (induction files arbitrary: w)
  case Nil
  then show ?case by (simp add: processFiles_Nil)
next
  case (Cons f files)
  from Cons.prems have
    "fs (snd (processFiles E files options (snd (processFile E options f w)))) q \<noteq> None"
    by (simp add: processFiles_Cons)
  from Cons.IH [OF this] show ?case
    using processFile_leaves_nothing [of E options f w q] by blast
qed

text \<open>
  C8. Whatever one iteration of the upload loop did (processed, skipped, caught an error),
  no regular file is left at the upload's path when it ends, so every later upload is
  processed in a world where the temp files of all earlier uploads are gone, and when the
  batch returns none of its uploads has a temp file. When the extractor has created its
  scratch directory, nothing exists at or under that directory when it returns, whether
  it returns images or an error; when it fails before creating the directory, it leaves
  the file system as it was. The batch leaves nothing behind that was not there before,
  except the directories \<^verbatim>\<open>tmp\<close> and \<^verbatim>\<open>tmp/extracted\<close> and their ancestors.
\<close>

theorem transient_resources_released:
  "\<not> is_file (fs (snd (processFile E options f w)) (path f))
   \<and> (i < j \<and> j \<le> length files \<longrightarrow>
        \<not> is_file (fs (snd (processFiles E (take j files) options w)) (path (files ! i))))
   \<and> (f \<in> set files \<longrightarrow> \<not> is_file (fs (snd (processFiles E files options w)) (path f)))
   \<and> (existsSync (fs w) p \<and> stat_size (dir_size E) (fs w) p \<noteq> Inr 0
        \<and> (\<exists>fs1. mkdirp (fs w) (extractDir E (now w)) = Inr fs1)
        \<and> prefix (extractDir E (now w)) q
        \<longrightarrow> fs (snd (extractAndProcessImages E p options w)) q = None)
   \<and> (\<not> (existsSync (fs w) p \<and> stat_size (dir_size E) (fs w) p \<noteq> Inr 0
           \<and> (\<exists>fs1. mkdirp (fs w) (extractDir E (now w)) = Inr fs1))
        \<longrightarrow> fs (snd (extractAndProcessImages E p options w)) = fs w
            \<and> isl (fst (extractAndProcessImages E p options w)))
   \<and> (fs (snd (processFiles E files options w)) q \<noteq> None \<longrightarrow>
        fs w q \<noteq> None \<or> prefix q (cwd E @ [''tmp'', ''extracted'']))"
proof -
  have a: "\<not> is_file (fs (snd (processFiles E files options w)) (path f))" if "f \<in> set files"
  proof -
    from that obtain i where i: "i < length files" "files ! i = f"
      by (auto simp: in_set_conv_nth)
    then show ?thesis
      using processFiles_unlinked [of i "length files" files E options w] by simp
  qed
  have b: "fs (snd (extractAndProcessImages E p options w)) q = None"
    if h: "existsSync (fs w) p" "stat_size (dir_size E) (fs w) p \<noteq> Inr 0"
      "\<exists>fs1. mkdirp (fs w) (extractDir E (now w)) = Inr fs1"
      "prefix (extractDir E (now w)) q"
  proof -
    from h(3) obtain fs1 where mk: "mkdirp (fs w) (extractDir E (now w)) = Inr fs1" by blast
    show ?thesis
      using extract_acquired [OF h(1,2) mk, of options] h(4) by (simp add: remove_tree_def)
  qed
  show ?thesis
    using a b processFile_unlinked [of E options f w]
      processFiles_unlinked [of i j files E options w]
      extract_not_acquired [of w p E options]
      processFiles_leaves_nothing [of E files options w q]
    by blast
qed

lemma demo_final_fs:
  "fs (snd (processFiles demo_env demo_uploads \<lparr>quality = 80\<rparr> demo_world))
      [''srv'', ''tmp'', ''uploads'', ''files-2.zip''] = None"
  by (simp add: run_simps name_simps demo_uploads_def demo_world_def processFiles_Cons
        processFiles_Nil)

theorem transient_resources_released_witness:
  "demo_uploads ! 1 \<in> set demo_uploads
   \<and> \<not> is_file (fs (snd (processFiles demo_env demo_uploads \<lparr>quality = 80\<rparr> demo_world))
          (path (demo_uploads ! 1)))
   \<and> \<not> is_file (fs (snd (processFiles demo_env (take 2 demo_uploads) \<lparr>quality = 80\<rparr> demo_world))
          (path (demo_uploads ! 1)))
   \<and> fs (snd (processFiles demo_env demo_uploads \<lparr>quality = 80\<rparr> demo_world))
        [''srv'', ''tmp'', ''uploads'', ''files-2.zip''] = None
   \<and> extractDir demo_env (now demo_world) = [''srv'', ''tmp'', ''extracted'', ''zip_1000'']
   \<and> isl (fst (extractAndProcessImages demo_env [''srv'', ''tmp'', ''uploads'', ''files-4.jpg'']
               \<lparr>quality = 80\<rparr> demo_corrupt_world))
   \<and> fs (snd (extractAndProcessImages demo_env [''srv'', ''tmp'', ''uploads'', ''files-4.jpg'']
               \<lparr>quality = 80\<rparr> demo_corrupt_world))
        [''srv'', ''tmp'', ''extracted'', ''zip_1000''] = None
   \<and> \<not> isl (fst (extractAndProcessImages demo_env [''srv'', ''tmp'', ''uploads'', ''files-2.zip'']
               \<lparr>quality = 80\<rparr> demo_world))
   \<and> fs (snd (extractAndProcessImages demo_env [''srv'', ''tmp'', ''uploads'', ''files-2.zip'']
               \<lparr>quality = 80\<rparr> demo_world))
        [''srv'', ''tmp'', ''extracted'', ''zip_1000'', ''a.jpg''] = None
   \<and> fs (snd (extractAndProcessImages demo_env [''srv'', ''tmp'', ''uploads'', ''files-9.zip'']
               \<lparr>quality = 80\<rparr> demo_world)) = fs demo_world"
proof -
  let ?o = "\<lparr>quality = 80\<rparr>"
  let ?d = "[''srv'', ''tmp'', ''extracted'', ''zip_1000'']"
  have len: "length demo_uploads = 3" by (simp add: demo_uploads_def)
  have mem: "demo_uploads ! 1 \<in> set demo_uploads" by (simp add: len)
  have d: "extractDir demo_env (now demo_world) = ?d"
    "extractDir demo_env (now demo_corrupt_world) = ?d"
    by (simp_all add: extractDir_def demo_env_def demo_world_def demo_corrupt_world_def
          decimal.simps)
  note tA = transient_resources_released
    [where E = demo_env and options = ?o and files = demo_uploads and w = demo_world
       and f = "demo_uploads ! 1" and i = 1 and j = 2
       and p = "[''srv'', ''tmp'', ''uploads'', ''files-2.zip'']"
       and q = "[''srv'', ''tmp'', ''extracted'', ''zip_1000'', ''a.jpg'']"]
  note tB = transient_resources_released
    [where E = demo_env and options = ?o and files = demo_corrupt_batch
       and w = demo_corrupt_world and f = "demo_corrupt_batch ! 1" and i = 1 and j = 2
       and p = "[''srv'', ''tmp'', ''uploads'', ''files-4.jpg'']" and q = ?d]
  note tC = transient_resources_released
    [where E = demo_env and options = ?o and files = demo_uploads and w = demo_world
       and f = "demo_uploads ! 1" and i = 1 and j = 2
       and p = "[''srv'', ''tmp'', ''uploads'', ''files-9.zip'']" and q = ?d]
  have g2: "\<not> is_file (fs (snd (processFiles demo_env demo_uploads ?o demo_world))
          (path (demo_uploads ! 1)))"
    using tA [THEN conjunct2, THEN conjunct2, THEN conjunct1] mem by simp
  have g3: "\<not> is_file (fs (snd (processFiles demo_env (take 2 demo_uploads) ?o demo_world))
          (path (demo_uploads ! 1)))"
    using tA [THEN conjunct2, THEN conjunct1] len by simp
  have g4: "fs (snd (processFiles demo_env demo_uploads ?o demo_world))
        [''srv'', ''tmp'', ''uploads'', ''files-2.zip''] = None"
    using demo_final_fs by simp
  have accB: "existsSync (fs demo_corrupt_world) [''srv'', ''tmp'', ''uploads'', ''files-4.jpg'']
      \<and> stat_size (dir_size demo_env) (fs demo_corrupt_world)
            [''srv'', ''tmp'', ''uploads'', ''files-4.jpg''] \<noteq> Inr 0
      \<and> (\<exists>fs1. mkdirp (fs demo_corrupt_world) ?d = Inr fs1)"
    by (simp add: demo_corrupt_world_def existsSync_def stat_size_def mkdirp_def is_file_def)
  have accA: "existsSync (fs demo_world) [''srv'', ''tmp'', ''uploads'', ''files-2.zip'']
      \<and> stat_size (dir_size demo_env) (fs demo_world)
            [''srv'', ''tmp'', ''uploads'', ''files-2.zip''] \<noteq> Inr 0
      \<and> (\<exists>fs1. mkdirp (fs demo_world) ?d = Inr fs1)"
    by (simp add: demo_world_def existsSync_def stat_size_def mkdirp_def is_file_def)
  have naC: "\<not> existsSync (fs demo_world) [''srv'', ''tmp'', ''uploads'', ''files-9.zip'']"
    by (simp add: demo_world_def existsSync_def)
  have g6: "isl (fst (extractAndProcessImages demo_env [''srv'', ''tmp'', ''uploads'', ''files-4.jpg'']
               ?o demo_corrupt_world))"
    by (simp add: run_simps demo_corrupt_world_def)
  have g7: "fs (snd (extractAndProcessImages demo_env [''srv'', ''tmp'', ''uploads'', ''files-4.jpg'']
               ?o demo_corrupt_world)) ?d = None"
    using tB [THEN conjunct2, THEN conjunct2, THEN conjunct2, THEN conjunct1] accB d(2) by simp
  have g8: "\<not> isl (fst (extractAndProcessImages demo_env [''srv'', ''tmp'', ''uploads'', ''files-2.zip'']
               ?o demo_world))"
    by (simp add: run_simps name_simps demo_world_def)
  have g9: "fs (snd (extractAndProcessImages demo_env [''srv'', ''tmp'', ''uploads'', ''files-2.zip'']
               ?o demo_world)) [''srv'', ''tmp'', ''extracted'', ''zip_1000'', ''a.jpg''] = None"
    using tA [THEN conjunct2, THEN conjunct2, THEN conjunct2, THEN conjunct1] accA d(1) by simp
  have g10: "fs (snd (extractAndProcessImages demo_env [''srv'', ''tmp'', ''uploads'', ''files-9.zip'']
               ?o demo_world)) = fs demo_world"
    using tC [THEN conjunct2, THEN conjunct2, THEN conjunct2, THEN conjunct2, THEN conjunct1] naC
    by simp
  show ?thesis
    by (intro conjI) (fact mem g2 g3 g4 d(1) g6 g7 g8 g9 g10)+
qed

end
